theory Spec2Isabelle
  imports Main "HOL-Library.AList" "HOL-Library.Word"
begin

unbundle bit_operations_syntax

section \<open>JavaScript values and helpers\<close>

text \<open>
  A value of a configuration option is a string or an array. An array element is
  \<open>Some s\<close> for the string \<open>s\<close> and \<open>None\<close> for \<open>undefined\<close> (which
  \<open>push(undefined)\<close> can put there). A value that may be \<open>undefined\<close> or \<open>null\<close>
  is a \<open>uval option\<close> or a \<open>string option\<close>, with \<open>None\<close> for both.
\<close>

datatype uval = Str string | Lst "string option list"

text \<open>JavaScript truthiness: the empty string is falsy, every array is truthy.\<close>

fun truthy_val :: "uval \<Rightarrow> bool" where
  "truthy_val (Str s) = (s \<noteq> [])"
| "truthy_val (Lst xs) = True"

fun truthy :: "uval option \<Rightarrow> bool" where
  "truthy None = False"
| "truthy (Some v) = truthy_val v"

fun truthy_str :: "string option \<Rightarrow> bool" where
  "truthy_str None = False"
| "truthy_str (Some s) = (s \<noteq> [])"

text \<open>\<open>a || b\<close> on an optional string with a string default.\<close>

definition or_default :: "string option \<Rightarrow> string \<Rightarrow> string" where
  "or_default a b = (case a of None \<Rightarrow> b | Some s \<Rightarrow> if s = [] then b else s)"

fun join :: "string \<Rightarrow> string list \<Rightarrow> string" where
  "join sep [] = []"
| "join sep [x] = x"
| "join sep (x # y # ys) = x @ sep @ join sep (y # ys)"

text \<open>
  The string a value turns into when it is used as a property key: an array is joined
  with commas, an undefined element giving the empty string.
\<close>

fun js_toString :: "uval \<Rightarrow> string" where
  "js_toString (Str s) = s"
| "js_toString (Lst xs) = join '','' (map (\<lambda>x. case x of None \<Rightarrow> [] | Some s \<Rightarrow> s) xs)"

text \<open>
  The list-or-scalar normalisation that the source repeats at every read of a list option:
  \<^verbatim>\<open>
  let networkList = [];
  if (Array.isArray(currentNetworks)) networkList = currentNetworks;
  else if (currentNetworks) networkList = [currentNetworks];
  \<close>
\<close>

fun normalize :: "uval option \<Rightarrow> string option list" where
  "normalize (Some (Lst xs)) = xs"
| "normalize (Some (Str s)) = (if s \<noteq> [] then [Some s] else [])"
| "normalize None = []"

text \<open>\<open>s.startsWith(p)\<close>\<close>

definition startsWith :: "string \<Rightarrow> string \<Rightarrow> bool" where
  "startsWith s p = (take (length p) s = p)"

section \<open>The configuration store\<close>

text \<open>
  Modelled from the spec: the configuration store (\<open>uci\<close>) is an external collaborator of
  the repository; its operations \<open>load\<close>, \<open>get\<close>, \<open>set\<close>, \<open>add\<close>, \<open>remove\<close>,
  \<open>unset\<close>, \<open>sections\<close>, \<open>save\<close> and \<open>apply\<close> are modelled from section 6 of the
  specification. A configuration domain is the list, in order, of its sections as the
  staged transaction shows them; a section has an identifier (\<open>.name\<close>), a type
  (\<open>.type\<close>) and options. The identifiers of one domain are one namespace, whatever the
  type of the section.
\<close>

record uci_section =
  sname :: string
  stype :: string
  sopts :: "(string \<times> uval) list"

type_synonym config = "uci_section list"

datatype conf = Network | Firewall | Dhcp

record store =
  network :: config
  firewall :: config
  dhcp :: config

fun conf_of :: "conf \<Rightarrow> store \<Rightarrow> config" where
  "conf_of Network st = network st"
| "conf_of Firewall st = firewall st"
| "conf_of Dhcp st = dhcp st"

fun conf_upd :: "conf \<Rightarrow> (config \<Rightarrow> config) \<Rightarrow> store \<Rightarrow> store" where
  "conf_upd Network f st = st\<lparr>network := f (network st)\<rparr>"
| "conf_upd Firewall f st = st\<lparr>firewall := f (firewall st)\<rparr>"
| "conf_upd Dhcp f st = st\<lparr>dhcp := f (dhcp st)\<rparr>"

text \<open>\<open>get(domain, section)\<close>: the section of that identifier, or null.\<close>

definition c_get :: "string option \<Rightarrow> config \<Rightarrow> uci_section option" where
  "c_get sid c = (case sid of None \<Rightarrow> None | Some n \<Rightarrow> find (\<lambda>s. sname s = n) c)"

definition uci_get :: "conf \<Rightarrow> string option \<Rightarrow> store \<Rightarrow> uci_section option" where
  "uci_get d sid st = c_get sid (conf_of d st)"

text \<open>\<open>get(domain, section, option)\<close>: the value of the option, or null.\<close>

definition c_get_opt :: "string option \<Rightarrow> string \<Rightarrow> config \<Rightarrow> uval option" where
  "c_get_opt sid opt c = (case c_get sid c of None \<Rightarrow> None | Some s \<Rightarrow> map_of (sopts s) opt)"

definition uci_get_opt :: "conf \<Rightarrow> string option \<Rightarrow> string \<Rightarrow> store \<Rightarrow> uval option" where
  "uci_get_opt d sid opt st = c_get_opt sid opt (conf_of d st)"

text \<open>
  \<open>set(domain, section, option, value)\<close>: sets the option in an existing section and does
  nothing when there is no such section; a null or empty value removes the option.
\<close>

definition set_opt :: "string \<Rightarrow> uval option \<Rightarrow> uci_section \<Rightarrow> uci_section" where
  "set_opt opt val s =
     (case val of
        None \<Rightarrow> s\<lparr>sopts := AList.delete opt (sopts s)\<rparr>
      | Some v \<Rightarrow> if v = Str [] then s\<lparr>sopts := AList.delete opt (sopts s)\<rparr>
                  else s\<lparr>sopts := AList.update opt v (sopts s)\<rparr>)"

definition c_set :: "string option \<Rightarrow> string \<Rightarrow> uval option \<Rightarrow> config \<Rightarrow> config" where
  "c_set sid opt val c =
     (case sid of None \<Rightarrow> c
      | Some n \<Rightarrow> map (\<lambda>s. if sname s = n then set_opt opt val s else s) c)"

definition uci_set :: "conf \<Rightarrow> string option \<Rightarrow> string \<Rightarrow> uval option \<Rightarrow> store \<Rightarrow> store" where
  "uci_set d sid opt val st = conf_upd d (c_set sid opt val) st"

text \<open>\<open>unset(domain, section, option)\<close>\<close>

definition uci_unset :: "conf \<Rightarrow> string option \<Rightarrow> string \<Rightarrow> store \<Rightarrow> store" where
  "uci_unset d sid opt st = conf_upd d (c_set sid opt None) st"

text \<open>
  \<open>add(domain, type, name)\<close> returns the identifier of the new section: the name when one
  is given, and a generated identifier, which names no section of the domain, when the
  name is missing or empty (\<open>add(domain, type)\<close>). The generated identifier here is longer
  than every identifier of the domain.
\<close>

definition gen_sid :: "config \<Rightarrow> string" where
  "gen_sid c = ''cfg'' @ replicate (foldr max (map (\<lambda>s. length (sname s)) c) 0) CHR ''0''"

definition new_sid :: "string option \<Rightarrow> config \<Rightarrow> string" where
  "new_sid name c = (case name of None \<Rightarrow> gen_sid c | Some n \<Rightarrow> if n = [] then gen_sid c else n)"

definition c_add :: "string \<Rightarrow> string option \<Rightarrow> config \<Rightarrow> config" where
  "c_add typ name c = c @ [\<lparr>sname = new_sid name c, stype = typ, sopts = []\<rparr>]"

definition uci_add :: "conf \<Rightarrow> string \<Rightarrow> string option \<Rightarrow> store \<Rightarrow> string \<times> store" where
  "uci_add d typ name st = (new_sid name (conf_of d st), conf_upd d (c_add typ name) st)"

text \<open>\<open>remove(domain, section)\<close>\<close>

definition c_remove :: "string \<Rightarrow> config \<Rightarrow> config" where
  "c_remove sid c = filter (\<lambda>s. sname s \<noteq> sid) c"

definition uci_remove :: "conf \<Rightarrow> string \<Rightarrow> store \<Rightarrow> store" where
  "uci_remove d sid st = conf_upd d (c_remove sid) st"

text \<open>\<open>sections(domain, type)\<close>: the sections of that type, in order.\<close>

definition uci_sections :: "conf \<Rightarrow> string \<Rightarrow> store \<Rightarrow> uci_section list" where
  "uci_sections d typ st = filter (\<lambda>s. stype s = typ) (conf_of d st)"

section \<open>Promises, failures and effects\<close>

text \<open>
  The asynchronous calls (\<open>load\<close>, \<open>save\<close>, \<open>apply\<close>, \<open>flushCache\<close>, \<open>exec\<close>) can
  fail: the environment says which of them do. \<open>parseInt\<close> and the network layer's
  \<open>prefixToMask\<close> are parameters as well (\<open>None\<close> is \<open>NaN\<close> for the first and null for
  the second). Every such call is recorded in the trace, a save together with the staged
  store it was issued on. A promise is a function of the world that resolves (\<open>Inr\<close>) or
  rejects (\<open>Inl\<close>).
\<close>

datatype error = StoreError | TypeError | ExecError

record env =
  load_ok :: "conf \<Rightarrow> bool"
  save_ok :: bool
  apply_ok :: bool
  flush_ok :: bool
  exec_ok :: bool
  parseInt :: "string \<Rightarrow> int option"
  prefixToMask :: "int option \<Rightarrow> string option"

datatype event = Load conf | Save store | Apply nat | Flush | Exec string "string list"

record world =
  cfg :: store
  trace :: "event list"

type_synonym 'a promise = "world \<Rightarrow> (error + 'a) \<times> world"

definition resolve :: "'a \<Rightarrow> 'a promise" where
  "resolve x w = (Inr x, w)"

definition reject :: "error \<Rightarrow> 'a promise" where
  "reject e w = (Inl e, w)"

definition then_p :: "'a promise \<Rightarrow> ('a \<Rightarrow> 'b promise) \<Rightarrow> 'b promise" where
  "then_p m f w = (case m w of (Inl e, w') \<Rightarrow> (Inl e, w') | (Inr x, w') \<Rightarrow> f x w')"

definition catch_p :: "'a promise \<Rightarrow> (error \<Rightarrow> 'a promise) \<Rightarrow> 'a promise" where
  "catch_p m h w = (case m w of (Inl e, w') \<Rightarrow> h e w' | (Inr x, w') \<Rightarrow> (Inr x, w'))"

definition emit :: "event list \<Rightarrow> world \<Rightarrow> world" where
  "emit es w = w\<lparr>trace := trace w @ es\<rparr>"

text \<open>\<open>Promise.all\<close> over loads: every load is issued, and one failure rejects.\<close>

definition load_all :: "env \<Rightarrow> conf list \<Rightarrow> unit promise" where
  "load_all e ds w =
     ((if \<forall>d \<in> set ds. load_ok e d then Inr () else Inl StoreError), emit (map Load ds) w)"

definition uci_load :: "env \<Rightarrow> conf \<Rightarrow> unit promise" where
  "uci_load e d = load_all e [d]"

definition uci_save :: "env \<Rightarrow> unit promise" where
  "uci_save e w = ((if save_ok e then Inr () else Inl StoreError), emit [Save (cfg w)] w)"

definition uci_apply :: "env \<Rightarrow> nat \<Rightarrow> unit promise" where
  "uci_apply e t w = ((if apply_ok e then Inr () else Inl StoreError), emit [Apply t] w)"

definition flushCache :: "env \<Rightarrow> unit promise" where
  "flushCache e w = ((if flush_ok e then Inr () else Inl StoreError), emit [Flush] w)"

definition fs_exec :: "env \<Rightarrow> string \<Rightarrow> string list \<Rightarrow> unit promise" where
  "fs_exec e path args w = ((if exec_ok e then Inr () else Inl ExecError), emit [Exec path args] w)"

text \<open>A synchronous block of store edits, run inside a \<open>then\<close> callback.\<close>

definition edit :: "(store \<Rightarrow> store) \<Rightarrow> world \<Rightarrow> world" where
  "edit f w = w\<lparr>cfg := f (cfg w)\<rparr>"

section \<open>openwrt-network.js\<close>

definition needsBridge :: "string \<Rightarrow> bool" where
  "needsBridge driver = (driver = [] \<or> driver = ''bridge'')"

subsection \<open>hasIntegration and getIntegration\<close>

definition hasIntegration :: "env \<Rightarrow> string \<Rightarrow> bool promise" where
  "hasIntegration e networkName =
     catch_p
       (then_p (uci_load e Network) (\<lambda>_ w.
          let iface = uci_get Network (Some networkName) (cfg w)
          in resolve (iface \<noteq> None) w))
       (\<lambda>_. resolve False)"

text \<open>The object \<open>{networkName, deviceName, gateway, netmask, proto}\<close> that
  \<open>getIntegration\<close> returns.\<close>

record integration =
  int_networkName :: string
  int_deviceName :: "uval option"
  int_gateway :: "uval option"
  int_netmask :: "uval option"
  int_proto :: "uval option"

definition getIntegration :: "env \<Rightarrow> string \<Rightarrow> integration option promise" where
  "getIntegration e name =
     catch_p
       (then_p (uci_load e Network) (\<lambda>_ w.
          let iface = uci_get Network (Some name) (cfg w)
          in if iface = None then resolve None w
             else resolve (Some \<lparr>
               int_networkName = name,
               int_deviceName = uci_get_opt Network (Some name) ''device'' (cfg w),
               int_gateway = uci_get_opt Network (Some name) ''ipaddr'' (cfg w),
               int_netmask = uci_get_opt Network (Some name) ''netmask'' (cfg w),
               int_proto = uci_get_opt Network (Some name) ''proto'' (cfg w)\<rparr>) w))
       (\<lambda>_. resolve None)"

subsection \<open>isIntegrationComplete\<close>

record details =
  hasInterface :: bool
  hasDevice :: bool
  hasDnsmasqExclusion :: bool
  ddriver :: string

record status =
  complete :: bool
  missing :: "string list"
  details :: details

text \<open>\<open>notinterfaces.includes(deviceName)\<close>: strict equality with an element.\<close>

fun includes_val :: "string option list \<Rightarrow> uval \<Rightarrow> bool" where
  "includes_val xs (Str s) = (Some s \<in> set xs)"
| "includes_val xs (Lst ys) = False"

definition isExcluded :: "uval option \<Rightarrow> uval \<Rightarrow> bool" where
  "isExcluded notinterfaces dev =
     (case notinterfaces of
        Some (Lst xs) \<Rightarrow> includes_val xs dev
      | Some (Str s) \<Rightarrow> s \<noteq> [] \<and> dev = Str s
      | None \<Rightarrow> False)"

text \<open>The dnsmasq part of the status check, reached for a device of type bridge.\<close>

definition check_dnsmasq :: "uval \<Rightarrow> store \<Rightarrow> string list \<times> details \<Rightarrow> string list \<times> details" where
  "check_dnsmasq dev st md =
     (case uci_sections Dhcp ''dnsmasq'' st of
        [] \<Rightarrow> (fst md, (snd md)\<lparr>hasDnsmasqExclusion := True\<rparr>)
      | main # _ \<Rightarrow>
          (let notinterfaces = uci_get_opt Dhcp (Some (sname main)) ''notinterface'' st
           in if isExcluded notinterfaces dev
              then (fst md, (snd md)\<lparr>hasDnsmasqExclusion := True\<rparr>)
              else (fst md @ [''dnsmasq''], snd md)))"

definition check_device :: "string \<Rightarrow> string \<Rightarrow> store \<Rightarrow> string list \<times> details \<Rightarrow> string list \<times> details" where
  "check_device name driver st md =
     (let dev = uci_get_opt Network (Some name) ''device'' st
      in if truthy dev then
           (case dev of None \<Rightarrow> md | Some dv \<Rightarrow>
             if needsBridge driver then
               (let device = uci_get Network (Some (js_toString dv)) st
                in if device = None then (fst md @ [''device''], snd md)
                   else (let deviceType = uci_get_opt Network (Some (js_toString dv)) ''type'' st
                         in if deviceType \<noteq> Some (Str ''bridge'')
                            then (fst md @ [''device''], snd md)
                            else check_dnsmasq dv st (fst md, (snd md)\<lparr>hasDevice := True\<rparr>)))
             else (fst md, (snd md)\<lparr>hasDevice := True, hasDnsmasqExclusion := True\<rparr>))
         else (fst md @ [''device''], snd md))"

definition check_interface :: "string \<Rightarrow> store \<Rightarrow> string list \<times> details \<Rightarrow> string list \<times> details" where
  "check_interface name st md =
     (let iface = uci_get Network (Some name) st
      in if iface = None then (fst md @ [''interface''], snd md)
         else (fst md, (snd md)\<lparr>hasInterface := True\<rparr>))"

definition status_check :: "string \<Rightarrow> string \<Rightarrow> store \<Rightarrow> status" where
  "status_check name driver st =
     (let details0 = \<lparr>hasInterface = False, hasDevice = False, hasDnsmasqExclusion = False,
                      ddriver = driver\<rparr>;
          md = check_device name driver st (check_interface name st ([], details0))
      in \<lparr>complete = (fst md = []), missing = fst md, details = snd md\<rparr>)"

definition isIntegrationComplete :: "env \<Rightarrow> string \<Rightarrow> string option \<Rightarrow> status promise" where
  "isIntegrationComplete e name drv =
     (let driver = or_default drv ''bridge''
      in catch_p
           (then_p (load_all e [Network, Dhcp]) (\<lambda>_ w.
              resolve (status_check name driver (cfg w)) w))
           (\<lambda>_. resolve \<lparr>complete = False, missing = [''unknown''],
                          details = \<lparr>hasInterface = False, hasDevice = False,
                                     hasDnsmasqExclusion = False, ddriver = driver\<rparr>\<rparr>))"

subsection \<open>createIntegration\<close>

record options =
  driver :: "string option"
  bridgeName :: "string option"
  parent :: "string option"
  subnet :: "string option"
  gateway :: "string option"
  ipv6subnet :: "string option"
  ipv6gateway :: "string option"
  zoneName :: "string option"

text \<open>
  \<open>s.split(sep)\<close> for a separator that is not empty (the only use in the source): the
  parts between the occurrences of the separator, found from left to right.
\<close>

fun js_split :: "string \<Rightarrow> string \<Rightarrow> string list" where
  "js_split sep [] = [[]]"
| "js_split sep (c # cs) =
     (if sep \<noteq> [] \<and> take (length sep) (c # cs) = sep
      then [] # js_split sep (drop (length sep - 1) cs)
      else (case js_split sep cs of [] \<Rightarrow> [[c]] | p # ps \<Rightarrow> (c # p) # ps))"

definition cidrToPrefix :: "env \<Rightarrow> string \<Rightarrow> int option" where
  "cidrToPrefix e cidr =
     (let parts = js_split ''/'' cidr
      in if length parts = 2 then parseInt e (parts ! 1) else Some 24)"

text \<open>The first section of a type whose option \<open>name\<close> is the given string:
  \<^verbatim>\<open>uci.sections(d, typ).find((s) => uci.get(d, s['.name'], 'name') === nm)\<close>\<close>

definition find_named :: "conf \<Rightarrow> string \<Rightarrow> string \<Rightarrow> store \<Rightarrow> uci_section option" where
  "find_named d typ nm st =
     find (\<lambda>s. uci_get_opt d (Some (sname s)) ''name'' st = Some (Str nm)) (uci_sections d typ st)"

definition create_device :: "string option \<Rightarrow> options \<Rightarrow> store \<Rightarrow> store" where
  "create_device dev options st =
     (let existingDevice = uci_get Network dev st
      in if existingDevice = None then
           (let st1 = snd (uci_add Network ''device'' dev st);
                st2 = uci_set Network dev ''type'' (Some (Str ''bridge'')) st1;
                st3 = uci_set Network dev ''name'' (map_option Str dev) st2;
                st4 = uci_set Network dev ''bridge_empty'' (Some (Str ''1'')) st3;
                st5 = uci_set Network dev ''ipv6'' (Some (Str ''0'')) st4
            in if truthy_str (ipv6subnet options)
               then uci_set Network dev ''ip6assign'' (Some (Str ''64''))
                      (uci_set Network dev ''ipv6'' (Some (Str ''1'')) st5)
               else st5)
         else st)"

definition create_interface ::
  "string \<Rightarrow> string option \<Rightarrow> string option \<Rightarrow> options \<Rightarrow> store \<Rightarrow> store" where
  "create_interface name dev nmask options st =
     (let existingInterface = uci_get Network (Some name) st
      in if existingInterface = None then
           (let st1 = snd (uci_add Network ''interface'' (Some name) st);
                st2 = uci_set Network (Some name) ''proto'' (Some (Str ''static'')) st1;
                st3 = uci_set Network (Some name) ''device'' (map_option Str dev) st2;
                st4 = uci_set Network (Some name) ''ipaddr'' (map_option Str (gateway options)) st3;
                st5 = uci_set Network (Some name) ''netmask'' (map_option Str nmask) st4
            in if truthy_str (ipv6subnet options) \<and> truthy_str (ipv6gateway options)
               then uci_set Network (Some name) ''ip6addr''
                      (map_option (\<lambda>g. Str (g @ ''/64'')) (ipv6gateway options)) st5
               else st5)
         else st)"

definition ensure_zone :: "string \<Rightarrow> string \<Rightarrow> store \<Rightarrow> store" where
  "ensure_zone zone name st =
     (case find_named Firewall ''zone'' zone st of
        None \<Rightarrow>
          (let zoneId = fst (uci_add Firewall ''zone'' None st);
               st1 = snd (uci_add Firewall ''zone'' None st);
               st2 = uci_set Firewall (Some zoneId) ''name'' (Some (Str zone)) st1;
               st3 = uci_set Firewall (Some zoneId) ''input'' (Some (Str ''DROP'')) st2;
               st4 = uci_set Firewall (Some zoneId) ''output'' (Some (Str ''ACCEPT'')) st3;
               st5 = uci_set Firewall (Some zoneId) ''forward'' (Some (Str ''REJECT'')) st4
           in uci_set Firewall (Some zoneId) ''network'' (Some (Lst [Some name])) st5)
      | Some existingZone \<Rightarrow>
          (let zoneSection = sname existingZone;
               currentNetworks = uci_get_opt Firewall (Some zoneSection) ''network'' st;
               networkList = normalize currentNetworks
           in if Some name \<notin> set networkList
              then uci_set Firewall (Some zoneSection) ''network''
                     (Some (Lst (networkList @ [Some name]))) st
              else st))"

definition ensure_dns_rule :: "string \<Rightarrow> store \<Rightarrow> store" where
  "ensure_dns_rule zone st =
     (let dnsRuleName = ''Allow-'' @ zone @ ''-DNS''
      in case find_named Firewall ''rule'' dnsRuleName st of
           None \<Rightarrow>
             (let ruleId = fst (uci_add Firewall ''rule'' None st);
                  st1 = snd (uci_add Firewall ''rule'' None st);
                  st2 = uci_set Firewall (Some ruleId) ''name'' (Some (Str dnsRuleName)) st1;
                  st3 = uci_set Firewall (Some ruleId) ''src'' (Some (Str zone)) st2;
                  st4 = uci_set Firewall (Some ruleId) ''dest_port'' (Some (Str ''53'')) st3
              in uci_set Firewall (Some ruleId) ''target'' (Some (Str ''ACCEPT'')) st4)
         | Some existingDnsRule \<Rightarrow> st)"

text \<open>The synchronous callback of \<open>createIntegration\<close>, up to \<open>uci.save()\<close>.\<close>

definition create_sync ::
  "string \<Rightarrow> string \<Rightarrow> string option \<Rightarrow> string option \<Rightarrow> string \<Rightarrow> options \<Rightarrow> store \<Rightarrow> store" where
  "create_sync name drv dev nmask zone options st =
     (let st1 = (if needsBridge drv then create_device dev options st else st);
          st2 = create_interface name dev nmask options st1;
          st3 = ensure_zone zone name st2
      in ensure_dns_rule zone st3)"

subsection \<open>The dnsmasq exclusion (\<open>_configureDnsmasq\<close>, \<open>_restartDnsmasq\<close>)\<close>

text \<open>The first callback of \<open>_configureDnsmasq\<close>: the flag \<open>skip\<close> and the edited store.\<close>

definition dnsmasq_edit :: "string option \<Rightarrow> bool \<Rightarrow> store \<Rightarrow> bool \<times> store" where
  "dnsmasq_edit bridge enable st =
     (case uci_sections Dhcp ''dnsmasq'' st of
        [] \<Rightarrow> (True, st)
      | main # _ \<Rightarrow>
          (let mainSection = sname main;
               notinterfaces = uci_get_opt Dhcp (Some mainSection) ''notinterface'' st;
               notinterfaceList = normalize notinterfaces
           in if enable then
                (if bridge \<notin> set notinterfaceList
                 then (False, uci_set Dhcp (Some mainSection) ''notinterface''
                                (Some (Lst (notinterfaceList @ [bridge]))) st)
                 else (False, st))
              else
                (let filtered = filter (\<lambda>iface. iface \<noteq> bridge) notinterfaceList
                 in if filtered \<noteq> []
                    then (False, uci_set Dhcp (Some mainSection) ''notinterface''
                                   (Some (Lst filtered)) st)
                    else (False, uci_unset Dhcp (Some mainSection) ''notinterface'' st))))"

definition restartDnsmasq :: "env \<Rightarrow> unit promise" where
  "restartDnsmasq e =
     catch_p (fs_exec e ''/etc/init.d/dnsmasq'' [''restart'']) (\<lambda>err. resolve ())"

definition configureDnsmasq :: "env \<Rightarrow> string option \<Rightarrow> bool \<Rightarrow> unit promise" where
  "configureDnsmasq e bridge enable =
     then_p (then_p (then_p
       (then_p (uci_load e Dhcp) (\<lambda>_ w.
          resolve (fst (dnsmasq_edit bridge enable (cfg w)))
            (edit (\<lambda>st. snd (dnsmasq_edit bridge enable st)) w)))
       (\<lambda>skip. if skip then resolve skip else then_p (uci_apply e 90) (\<lambda>_. resolve skip)))
       (\<lambda>skip. if skip then resolve skip else then_p (uci_save e) (\<lambda>_. resolve skip)))
       (\<lambda>skip. if skip then resolve () else restartDnsmasq e)"

definition createIntegration :: "env \<Rightarrow> string \<Rightarrow> options \<Rightarrow> unit promise" where
  "createIntegration e name options =
     (case subnet options of
        None \<Rightarrow> reject TypeError
      | Some sn \<Rightarrow>
          (let drv = or_default (driver options) ''bridge'';
               dev = (if needsBridge drv then bridgeName options else parent options);
               prefix = cidrToPrefix e sn;
               nmask = prefixToMask e prefix;
               requestedZone = or_default (zoneName options) ''_create_new_'';
               zone = (if requestedZone = ''_create_new_'' then ''podman_'' @ name
                       else requestedZone)
           in then_p (then_p (then_p
                (then_p (load_all e [Network, Firewall]) (\<lambda>_ w.
                   uci_save e (edit (create_sync name drv dev nmask zone options) w)))
                (\<lambda>_. uci_apply e 90))
                (\<lambda>_. flushCache e))
                (\<lambda>_. if needsBridge drv then configureDnsmasq e dev True else resolve ())))"

subsection \<open>removeIntegration\<close>

text \<open>The loop over the zones, which stops at the first zone that has the network.\<close>

definition find_zone_of :: "string \<Rightarrow> store \<Rightarrow> uci_section option" where
  "find_zone_of name st =
     find (\<lambda>z. Some name \<in> set (normalize (uci_get_opt Firewall (Some (sname z)) ''network'' st)))
       (uci_sections Firewall ''zone'' st)"

text \<open>
  The zone part of the callback. \<open>zoneName.startsWith\<close> throws when the zone's name is an
  array, before any edit.
\<close>

definition remove_from_zone :: "string \<Rightarrow> store \<Rightarrow> error + store" where
  "remove_from_zone name st =
     (case find_zone_of name st of
        None \<Rightarrow> Inr st
      | Some z \<Rightarrow>
          (let networkZone = sname z;
               zoneName = uci_get_opt Firewall (Some networkZone) ''name'' st
           in if networkZone = [] then Inr st
              else
                (let currentNetworks = uci_get_opt Firewall (Some networkZone) ''network'' st;
                     networkList = filter (\<lambda>n. n \<noteq> Some name) (normalize currentNetworks)
                 in if networkList \<noteq> []
                    then Inr (uci_set Firewall (Some networkZone) ''network''
                                (Some (Lst networkList)) st)
                    else
                      (case zoneName of
                         Some (Lst xs) \<Rightarrow> Inl TypeError
                       | Some (Str zn) \<Rightarrow>
                           if zn \<noteq> [] \<and> startsWith zn ''podman'' then
                             (let st1 = uci_remove Firewall networkZone st;
                                  dnsRuleName = ''Allow-'' @ zn @ ''-DNS''
                              in case find_named Firewall ''rule'' dnsRuleName st1 of
                                   None \<Rightarrow> Inr st1
                                 | Some dnsRule \<Rightarrow> Inr (uci_remove Firewall (sname dnsRule) st1))
                           else Inr (uci_set Firewall (Some networkZone) ''network''
                                       (Some (Lst networkList)) st)
                       | None \<Rightarrow> Inr (uci_set Firewall (Some networkZone) ''network''
                                        (Some (Lst networkList)) st)))))"

definition remove_interface :: "string \<Rightarrow> store \<Rightarrow> store" where
  "remove_interface name st =
     (let iface = uci_get Network (Some name) st
      in if iface \<noteq> None then uci_remove Network name st else st)"

definition otherInterfaces :: "string \<Rightarrow> string \<Rightarrow> store \<Rightarrow> uci_section list" where
  "otherInterfaces name dev st =
     filter (\<lambda>s. uci_get_opt Network (Some (sname s)) ''device'' st = Some (Str dev) \<and>
                 sname s \<noteq> name)
       (uci_sections Network ''interface'' st)"

text \<open>The bridge part of the callback: the flag \<open>shouldRemoveBridge\<close> and the store.\<close>

definition remove_bridge :: "string \<Rightarrow> string \<Rightarrow> string \<Rightarrow> store \<Rightarrow> bool \<times> store" where
  "remove_bridge name dev drv st =
     (if needsBridge drv then
        (let shouldRemoveBridge = (otherInterfaces name dev st = [])
         in if shouldRemoveBridge then
              (let device = uci_get Network (Some dev) st
               in if device \<noteq> None then (shouldRemoveBridge, uci_remove Network dev st)
                  else (shouldRemoveBridge, st))
            else (shouldRemoveBridge, st))
      else (False, st))"

definition remove_sync :: "string \<Rightarrow> string \<Rightarrow> string \<Rightarrow> store \<Rightarrow> error + bool \<times> store" where
  "remove_sync name dev drv st =
     (case remove_from_zone name st of
        Inl err \<Rightarrow> Inl err
      | Inr st1 \<Rightarrow> Inr (remove_bridge name dev drv (remove_interface name st1)))"

definition removeIntegration :: "env \<Rightarrow> string \<Rightarrow> string \<Rightarrow> string option \<Rightarrow> unit promise" where
  "removeIntegration e name dev driver0 =
     (let drv = or_default driver0 ''bridge''
      in then_p (then_p (then_p (then_p
           (then_p (load_all e [Network, Firewall]) (\<lambda>_ w.
              case remove_sync name dev drv (cfg w) of
                Inl err \<Rightarrow> reject err w
              | Inr r \<Rightarrow> resolve (fst r) (edit (\<lambda>_. snd r) w)))
           (\<lambda>result. then_p (uci_save e) (\<lambda>_. resolve result)))
           (\<lambda>result. then_p (uci_apply e 90) (\<lambda>_. resolve result)))
           (\<lambda>result. then_p (flushCache e) (\<lambda>_. resolve result)))
           (\<lambda>shouldRemoveBridge.
              if needsBridge drv \<and> shouldRemoveBridge
              then configureDnsmasq e (Some dev) False else resolve ()))"

subsection \<open>repairIntegration\<close>

record repair_result =
  added :: "string list"
  skipped :: "string list"
  rdetails :: details

text \<open>The two lists \<open>added\<close> and \<open>skipped\<close> are passed along as a pair.\<close>

definition repair_device ::
  "string option \<Rightarrow> string \<Rightarrow> details \<Rightarrow> string list \<times> string list \<Rightarrow> store
     \<Rightarrow> (string list \<times> string list) \<times> store" where
  "repair_device dev drv det as st =
     (if \<not> hasDevice det \<and> needsBridge drv then
        (let existingDevice = uci_get Network dev st
         in if existingDevice = None then
              (let st1 = snd (uci_add Network ''device'' dev st);
                   st2 = uci_set Network dev ''type'' (Some (Str ''bridge'')) st1;
                   st3 = uci_set Network dev ''name'' (map_option Str dev) st2;
                   st4 = uci_set Network dev ''bridge_empty'' (Some (Str ''1'')) st3;
                   st5 = uci_set Network dev ''ipv6'' (Some (Str ''0'')) st4
               in ((fst as @ [''device''], snd as), st5))
            else ((fst as, snd as @ [''device'']), st))
      else ((fst as, snd as @ [''device'']), st))"

text \<open>\<open>cidrToPrefix(options.subnet)\<close> throws when there is no subnet.\<close>

definition repair_interface ::
  "env \<Rightarrow> string \<Rightarrow> string option \<Rightarrow> options \<Rightarrow> details \<Rightarrow> string list \<times> string list
     \<Rightarrow> store \<Rightarrow> (error + string list \<times> string list) \<times> store" where
  "repair_interface e name dev options det as st =
     (if \<not> hasInterface det then
        (let existingInterface = uci_get Network (Some name) st
         in if existingInterface = None then
              (case subnet options of
                 None \<Rightarrow> (Inl TypeError, st)
               | Some sn \<Rightarrow>
                   (let prefix = cidrToPrefix e sn;
                        nmask = prefixToMask e prefix;
                        st1 = snd (uci_add Network ''interface'' (Some name) st);
                        st2 = uci_set Network (Some name) ''proto'' (Some (Str ''static'')) st1;
                        st3 = uci_set Network (Some name) ''device'' (map_option Str dev) st2;
                        st4 = uci_set Network (Some name) ''ipaddr''
                                (map_option Str (gateway options)) st3;
                        st5 = uci_set Network (Some name) ''netmask'' (map_option Str nmask) st4
                    in (Inr (fst as @ [''interface''], snd as), st5)))
            else (Inr (fst as, snd as @ [''interface'']), st))
      else (Inr (fst as, snd as @ [''interface'']), st))"

definition repair_sync ::
  "env \<Rightarrow> string \<Rightarrow> string option \<Rightarrow> string \<Rightarrow> options \<Rightarrow> details \<Rightarrow> store
     \<Rightarrow> (error + string list \<times> string list) \<times> store" where
  "repair_sync e name dev drv options det st =
     (let r1 = repair_device dev drv det ([], []) st
      in repair_interface e name dev options det (fst r1) (snd r1))"

definition repairIntegration :: "env \<Rightarrow> string \<Rightarrow> options \<Rightarrow> repair_result promise" where
  "repairIntegration e name options =
     (let drv = or_default (driver options) ''bridge'';
          dev = (if needsBridge drv then bridgeName options else parent options)
      in then_p (isIntegrationComplete e name (Some drv)) (\<lambda>status.
           if complete status
           then resolve \<lparr>added = [], skipped = [''complete''], rdetails = details status\<rparr>
           else
             then_p (then_p (then_p (then_p
               (then_p (load_all e [Network, Dhcp]) (\<lambda>_ w.
                  case repair_sync e name dev drv options (details status) (cfg w) of
                    (Inl err, st) \<Rightarrow> reject err (edit (\<lambda>_. st) w)
                  | (Inr as, st) \<Rightarrow> then_p (uci_save e) (\<lambda>_. resolve as) (edit (\<lambda>_. st) w)))
               (\<lambda>as. then_p (uci_apply e 90) (\<lambda>_. resolve as)))
               (\<lambda>as. then_p (flushCache e) (\<lambda>_. resolve as)))
               (\<lambda>as. if \<not> hasDnsmasqExclusion (details status) \<and> needsBridge drv
                     then then_p (configureDnsmasq e dev True)
                            (\<lambda>_. resolve (fst as @ [''dnsmasq''], snd as))
                     else resolve (fst as, snd as @ [''dnsmasq''])))
               (\<lambda>as. resolve \<lparr>added = fst as, skipped = snd as, rdetails = details status\<rparr>)))"

subsection \<open>_isDnsmasqExcluded\<close>

text \<open>The callback of \<open>_isDnsmasqExcluded\<close>, and the function with its load and catch.\<close>

definition dnsmasq_excluded :: "string \<Rightarrow> store \<Rightarrow> bool" where
  "dnsmasq_excluded bridge st =
     (case uci_sections Dhcp ''dnsmasq'' st of
        [] \<Rightarrow> False
      | main # _ \<Rightarrow>
          (case uci_get_opt Dhcp (Some (sname main)) ''notinterface'' st of
             Some (Lst xs) \<Rightarrow> Some bridge \<in> set xs
           | Some (Str s) \<Rightarrow> s \<noteq> [] \<and> s = bridge
           | None \<Rightarrow> False))"

definition isDnsmasqExcluded :: "env \<Rightarrow> string \<Rightarrow> bool promise" where
  "isDnsmasqExcluded e bridge =
     catch_p
       (then_p (uci_load e Dhcp) (\<lambda>_ w. resolve (dnsmasq_excluded bridge (cfg w)) w))
       (\<lambda>_. resolve False)"

section \<open>The IPv6 ULA deriver\<close>

text \<open>
  \<open>Number(s)\<close> on a string of decimal digits whose value is below \<open>2^53\<close>: the value,
  which a double holds exactly (the empty string is 0). No other string is modelled
  (\<open>None\<close>): not the other numeric literals of JavaScript (signs, fractions, exponents,
  hexadecimal, surrounding white space), not the digit strings from \<open>2^53\<close> on, which
  \<open>Number\<close> rounds, and not the strings it turns into \<open>NaN\<close>.
\<close>

definition is_digit :: "char \<Rightarrow> bool" where
  "is_digit c = (48 \<le> (of_char c :: nat) \<and> (of_char c :: nat) \<le> 57)"

definition decimal :: "string \<Rightarrow> nat" where
  "decimal s = foldl (\<lambda>n c. 10 * n + (of_char c - 48)) 0 s"

definition js_Number :: "string \<Rightarrow> nat option" where
  "js_Number s =
     (if (\<forall>c \<in> set s. is_digit c) \<and> decimal s < 2 ^ 53 then Some (decimal s) else None)"

text \<open>
  \<open>ToInt32\<close> of \<open>xs[i]\<close>, which the operators \<open><<\<close> and \<open>|\<close> apply to their operands: an
  integer is taken modulo \<open>2^32\<close>, and \<open>xs[i]\<close> out of range is \<open>undefined\<close>, which is
  0. The result is \<open>None\<close> where \<open>xs[i]\<close> is a number that is not modelled.
\<close>

definition toInt32 :: "nat \<Rightarrow> 32 word" where
  "toInt32 n = word_of_nat n"

definition operand :: "nat option list \<Rightarrow> nat \<Rightarrow> 32 word option" where
  "operand xs i = (if i < length xs then map_option toInt32 (xs ! i) else Some 0)"

text \<open>\<open>n.toString(16)\<close> for an integer.\<close>

definition hexdigit :: "nat \<Rightarrow> char" where
  "hexdigit n = ''0123456789abcdef'' ! (n mod 16)"

function hex :: "nat \<Rightarrow> string" where
  "hex n = (if n < 16 then [hexdigit n] else hex (n div 16) @ [hexdigit (n mod 16)])"
  by pat_completeness auto
termination
  by (relation "measure id") auto

definition toString16 :: "int \<Rightarrow> string" where
  "toString16 i = (if i < 0 then CHR ''-'' # hex (nat (- i)) else hex (nat i))"

text \<open>\<open>s.padStart(n, c)\<close> for a pad of one character.\<close>

definition padStart :: "nat \<Rightarrow> char \<Rightarrow> string \<Rightarrow> string" where
  "padStart n c s = replicate (n - length s) c @ s"

text \<open>\<open>xs[0]\<close> of the result of a split, which is never empty.\<close>

definition first :: "string list \<Rightarrow> string" where
  "first xs = (case xs of [] \<Rightarrow> [] | x # _ \<Rightarrow> x)"

text \<open>\<^verbatim>\<open>while (hextets.length < 3) hextets.push('0')\<close>\<close>

function pad_hextets :: "string list \<Rightarrow> string list" where
  "pad_hextets hs = (if length hs < 3 then pad_hextets (hs @ [''0'']) else hs)"
  by pat_completeness auto
termination
  by (relation "measure (\<lambda>hs. 3 - length hs)") auto

text \<open>The 16-bit subnet identifier in hexadecimal, from the IPv4 subnet; \<open>None\<close> where
  the third or the fourth octet is a text that \<open>js_Number\<close> does not model.\<close>

definition subnetIdHex :: "string \<Rightarrow> string option" where
  "subnetIdHex ipv4 =
     (let ipv4Address = first (js_split ''/'' ipv4);
          octets = map js_Number (js_split ''.'' ipv4Address)
      in case (operand octets 2, operand octets 3) of
           (Some hi, Some lo) \<Rightarrow>
             Some (padStart 4 CHR ''0'' (toString16 (sint (push_bit 8 hi OR lo))))
         | _ \<Rightarrow> None)"

text \<open>The first three hextets of the ULA prefix, joined.\<close>

definition ulaHextets :: "string \<Rightarrow> string" where
  "ulaHextets ula_prefix =
     (let ulaAddress = first (js_split ''/'' ula_prefix);
          ulaParts = js_split ''::'' ulaAddress;
          hextets0 = js_split '':'' (first ulaParts);
          hextets = pad_hextets (if hextets0 = [[]] then [] else hextets0)
      in join '':'' (take 3 hextets))"

text \<open>The object \<open>{ipv6subnet, ipv6gateway}\<close> that \<open>deriveUlaFromIpv4\<close> returns. The
  function has no failure of its own: the result is \<open>None\<close> only where \<open>subnetIdHex\<close> is.\<close>

record ula =
  ula_ipv6subnet :: string
  ula_ipv6gateway :: string

definition deriveUlaFromIpv4 :: "string \<Rightarrow> string \<Rightarrow> ula option" where
  "deriveUlaFromIpv4 ipv4 ula_prefix =
     (case subnetIdHex ipv4 of
        None \<Rightarrow> None
      | Some subnetId \<Rightarrow>
          (let ipv6SubnetAddress = ulaHextets ula_prefix @ '':'' @ subnetId @ ''::''
           in Some \<lparr>ula_ipv6subnet = ipv6SubnetAddress @ ''/64'',
                    ula_ipv6gateway = ipv6SubnetAddress @ ''1''\<rparr>))"

section \<open>Auxiliary definitions\<close>

definition settable :: "uval option \<Rightarrow> uval option" where
  "settable val = (case val of None \<Rightarrow> None | Some v \<Rightarrow> if v = Str [] then None else Some v)"



definition step :: "store \<Rightarrow> event list \<Rightarrow> world \<Rightarrow> world" where
  "step st es w = w\<lparr>cfg := st, trace := trace w @ es\<rparr>"

definition dnsmasq_tail :: "env \<Rightarrow> store \<Rightarrow> event list" where
  "dnsmasq_tail e st =
     (if \<not> apply_ok e then [Apply 90]
      else if \<not> save_ok e then [Apply 90, Save st]
      else [Apply 90, Save st, Exec ''/etc/init.d/dnsmasq'' [''restart'']])"

definition create_args :: "env \<Rightarrow> string \<Rightarrow> options \<Rightarrow> string \<Rightarrow> store \<Rightarrow> store" where
  "create_args e name options sn =
     create_sync name (or_default (driver options) ''bridge'')
       (if needsBridge (or_default (driver options) ''bridge'') then bridgeName options
        else parent options)
       (prefixToMask e (cidrToPrefix e sn))
       (if or_default (zoneName options) ''_create_new_'' = ''_create_new_''
        then ''podman_'' @ name else or_default (zoneName options) ''_create_new_'') options"

definition commit_events :: "env \<Rightarrow> store \<Rightarrow> event list" where
  "commit_events e st =
     (if \<not> save_ok e then [Save st]
      else if \<not> apply_ok e then [Save st, Apply 90]
      else [Save st, Apply 90, Flush])"

definition commit_ok :: "env \<Rightarrow> bool" where
  "commit_ok e = (save_ok e \<and> apply_ok e \<and> flush_ok e)"

definition unknown_status :: "string \<Rightarrow> status" where
  "unknown_status drv =
     \<lparr>complete = False, missing = [''unknown''],
      details = \<lparr>hasInterface = False, hasDevice = False, hasDnsmasqExclusion = False,
                 ddriver = drv\<rparr>\<rparr>"

definition repair_status :: "env \<Rightarrow> string \<Rightarrow> options \<Rightarrow> store \<Rightarrow> status" where
  "repair_status e name options st =
     (if load_ok e Network \<and> load_ok e Dhcp
      then status_check name (or_default (driver options) ''bridge'') st
      else unknown_status (or_default (driver options) ''bridge''))"

definition repair_args ::
  "env \<Rightarrow> string \<Rightarrow> options \<Rightarrow> store \<Rightarrow> (error + string list \<times> string list) \<times> store" where
  "repair_args e name options st =
     repair_sync e name
       (if needsBridge (or_default (driver options) ''bridge'') then bridgeName options
        else parent options)
       (or_default (driver options) ''bridge'') options
       (details (repair_status e name options st)) st"

fun is_save :: "event \<Rightarrow> bool" where
  "is_save (Save st) = True"
| "is_save ev = False"

fun is_apply :: "event \<Rightarrow> bool" where
  "is_apply (Apply t) = True"
| "is_apply ev = False"

text \<open>The saves and applies among the calls, in order, and the calls that an operation
  added to the trace.\<close>

definition commits :: "event list \<Rightarrow> event list" where
  "commits es = filter (\<lambda>ev. is_save ev \<or> is_apply ev) es"

definition new_events :: "world \<Rightarrow> world \<Rightarrow> event list" where
  "new_events w w' = drop (length (trace w)) (trace w')"

text \<open>
  One transaction: the commit calls of the operation are one save, of the store the
  operation ends with, and \<open>apply(90)\<close> after it.
\<close>

definition one_commit :: "world \<Rightarrow> world \<Rightarrow> bool" where
  "one_commit w w' = (commits (new_events w w') = [Save (cfg w'), Apply 90])"

text \<open>
  Two transactions: the first save is issued on the final network and firewall domains,
  with the dhcp domain as it was before the operation, and \<open>apply(90)\<close> follows it; then
  come one more \<open>apply(90)\<close> and one more save, of the store the operation ends with.
\<close>

definition two_commits :: "world \<Rightarrow> world \<Rightarrow> bool" where
  "two_commits w w' =
     (commits (new_events w w') =
        [Save \<lparr>network = network (cfg w'), firewall = firewall (cfg w'), dhcp = dhcp (cfg w)\<rparr>,
         Apply 90, Apply 90, Save (cfg w')])"

text \<open>Looking for a named section of a type, in a domain (\<open>find_named\<close> on one domain).\<close>

definition c_find_named :: "string \<Rightarrow> string \<Rightarrow> config \<Rightarrow> uci_section option" where
  "c_find_named typ nm c =
     find (\<lambda>s. c_get_opt (Some (sname s)) ''name'' c = Some (Str nm))
       (filter (\<lambda>s. stype s = typ) c)"

text \<open>What the steps of \<open>createIntegration\<close> establish, and that a step whose target is
  there changes nothing.\<close>

definition zone_joined :: "string \<Rightarrow> string \<Rightarrow> config \<Rightarrow> bool" where
  "zone_joined zone name c =
     (case c_find_named ''zone'' zone c of
        None \<Rightarrow> False
      | Some z \<Rightarrow> Some name \<in> set (normalize (c_get_opt (Some (sname z)) ''network'' c)))"

definition dns_rule_name :: "string \<Rightarrow> string" where
  "dns_rule_name zone = ''Allow-'' @ zone @ ''-DNS''"

text \<open>The targets of the four steps.\<close>

definition created :: "string \<Rightarrow> string \<Rightarrow> string option \<Rightarrow> string \<Rightarrow> store \<Rightarrow> bool" where
  "created name drv dev zone st =
     ((needsBridge drv \<longrightarrow> c_get dev (network st) \<noteq> None) \<and>
      c_get (Some name) (network st) \<noteq> None \<and>
      zone_joined zone name (firewall st) \<and>
      c_find_named ''rule'' (dns_rule_name zone) (firewall st) \<noteq> None)"

text \<open>The store after \<open>createIntegration\<close>, as a function of the store before.\<close>

definition create_result :: "env \<Rightarrow> string \<Rightarrow> options \<Rightarrow> string \<Rightarrow> store \<Rightarrow> store" where
  "create_result e name options sn st =
     (if \<not> (load_ok e Network \<and> load_ok e Firewall) then st
      else if commit_ok e \<and> needsBridge (or_default (driver options) ''bridge'') \<and> load_ok e Dhcp
      then snd (dnsmasq_edit (bridgeName options) True (create_args e name options sn st))
      else create_args e name options sn st)"

text \<open>The text of an IPv4 subnet \<open>a.b.c.d/n\<close>, the numbers written in decimal.\<close>

definition digit :: "nat \<Rightarrow> char" where
  "digit n = char_of (48 + n mod 10)"

function dec :: "nat \<Rightarrow> string" where
  "dec n = (if n < 10 then [digit n] else dec (n div 10) @ [digit (n mod 10)])"
  by pat_completeness auto
termination
  by (relation "measure id") auto

definition ipv4_cidr :: "nat \<Rightarrow> nat \<Rightarrow> nat \<Rightarrow> nat \<Rightarrow> nat \<Rightarrow> string" where
  "ipv4_cidr a b c d n = dec a @ ''.'' @ dec b @ ''.'' @ dec c @ ''.'' @ dec d @ ''/'' @ dec n"

text \<open>The value of a hexadecimal digit, and of a string of them.\<close>

definition hexval :: "char \<Rightarrow> nat" where
  "hexval c = (if is_digit c then of_char c - 48 else of_char c - 87)"

definition unhex :: "string \<Rightarrow> nat" where
  "unhex s = foldl (\<lambda>n c. 16 * n + hexval c) 0 s"

text \<open>A string of lower-case hexadecimal digits.\<close>

definition lower_hex :: "string \<Rightarrow> bool" where
  "lower_hex s = (set s \<subseteq> set ''0123456789abcdef'')"

text \<open>A hextet as it is written: not empty, with no colon and no slash.\<close>

definition hextet :: "string \<Rightarrow> bool" where
  "hextet h = (h \<noteq> [] \<and> CHR '':'' \<notin> set h \<and> CHR ''/'' \<notin> set h)"

section \<open>Scenarios\<close>

text \<open>Environments and stores of the scenarios used below.\<close>

definition env_ok :: env where
  "env_ok = \<lparr>load_ok = (\<lambda>d. True), save_ok = True, apply_ok = True, flush_ok = True,
             exec_ok = True, parseInt = (\<lambda>s. Some 24),
             prefixToMask = (\<lambda>p. Some ''255.255.255.0'')\<rparr>"

definition env_down :: env where
  "env_down = \<lparr>load_ok = (\<lambda>d. False), save_ok = True, apply_ok = True, flush_ok = True,
               exec_ok = True, parseInt = (\<lambda>s. Some 24),
               prefixToMask = (\<lambda>p. Some ''255.255.255.0'')\<rparr>"

definition bridge_section :: "string \<Rightarrow> uci_section" where
  "bridge_section dev =
     \<lparr>sname = dev, stype = ''device'',
      sopts = [(''type'', Str ''bridge''), (''name'', Str dev), (''bridge_empty'', Str ''1''),
               (''ipv6'', Str ''0'')]\<rparr>"

definition interface_section :: "string \<Rightarrow> string \<Rightarrow> string \<Rightarrow> uci_section" where
  "interface_section name dev ip =
     \<lparr>sname = name, stype = ''interface'',
      sopts = [(''proto'', Str ''static''), (''device'', Str dev), (''ipaddr'', Str ip),
               (''netmask'', Str ''255.255.255.0'')]\<rparr>"

text \<open>Two bridge networks on one bridge device, in one shared zone.\<close>

definition w_two :: world where
  "w_two =
     \<lparr>cfg = \<lparr>network = [bridge_section ''br0'', interface_section ''net1'' ''br0'' ''10.89.0.1'',
                         interface_section ''net2'' ''br0'' ''10.89.1.1''],
             firewall = [\<lparr>sname = ''cfg01'', stype = ''zone'',
                          sopts = [(''name'', Str ''podman''), (''input'', Str ''DROP''),
                                   (''output'', Str ''ACCEPT''), (''forward'', Str ''REJECT''),
                                   (''network'', Lst [Some ''net1'', Some ''net2''])]\<rparr>,
                         \<lparr>sname = ''cfg02'', stype = ''rule'',
                          sopts = [(''name'', Str ''Allow-podman-DNS''), (''src'', Str ''podman''),
                                   (''dest_port'', Str ''53''), (''target'', Str ''ACCEPT'')]\<rparr>],
             dhcp = [\<lparr>sname = ''cfg03'', stype = ''dnsmasq'',
                      sopts = [(''notinterface'', Lst [Some ''br0''])]\<rparr>]\<rparr>,
      trace = []\<rparr>"

text \<open>A network whose device section is not a bridge, and no dnsmasq section.\<close>

definition w_wrongtype :: world where
  "w_wrongtype =
     \<lparr>cfg = \<lparr>network = [\<lparr>sname = ''br0'', stype = ''device'',
                           sopts = [(''type'', Str ''8021q''), (''name'', Str ''br0'')]\<rparr>,
                         interface_section ''net1'' ''br0'' ''10.89.0.1''],
             firewall = [], dhcp = []\<rparr>,
      trace = []\<rparr>"

text \<open>A network with its bridge device, and no dnsmasq section.\<close>

definition w_nodns :: world where
  "w_nodns =
     \<lparr>cfg = \<lparr>network = [bridge_section ''br0'', interface_section ''net1'' ''br0'' ''10.89.0.1''],
             firewall = [], dhcp = []\<rparr>,
      trace = []\<rparr>"

text \<open>A network whose bridge device has no section, and no dnsmasq section.\<close>

definition w_nodev :: world where
  "w_nodev =
     \<lparr>cfg = \<lparr>network = [interface_section ''net1'' ''br0'' ''10.89.0.1''],
             firewall = [], dhcp = []\<rparr>,
      trace = []\<rparr>"


definition opts_net1 :: options where
  "opts_net1 = \<lparr>driver = Some ''bridge'', bridgeName = Some ''br0'', parent = None,
                subnet = Some ''10.89.0.0/24'', gateway = Some ''10.89.0.1'',
                ipv6subnet = None, ipv6gateway = None, zoneName = Some ''podman''\<rparr>"

text \<open>An interface on a bridge that has no section of its own, and the bridge excluded.\<close>

definition w_orphan :: world where
  "w_orphan =
     \<lparr>cfg = \<lparr>network = [interface_section ''net1'' ''br0'' ''10.89.0.1''],
             firewall = [],
             dhcp = [\<lparr>sname = ''cfg03'', stype = ''dnsmasq'',
                      sopts = [(''notinterface'', Lst [Some ''br0''])]\<rparr>]\<rparr>,
      trace = []\<rparr>"





definition w_empty :: world where
  "w_empty = \<lparr>cfg = \<lparr>network = [], firewall = [], dhcp = []\<rparr>, trace = []\<rparr>"

text \<open>Options for a bridge network that give no bridge name.\<close>

definition opts_nobridge :: options where
  "opts_nobridge = \<lparr>driver = Some ''bridge'', bridgeName = None, parent = None,
                    subnet = Some ''10.89.0.0/24'', gateway = Some ''10.89.0.1'',
                    ipv6subnet = None, ipv6gateway = None, zoneName = None\<rparr>"

text \<open>The world after a first \<open>createIntegration\<close> of \<open>net1\<close> with these options.\<close>

definition st_first :: store where
  "st_first =
     \<lparr>network = [\<lparr>sname = ''cfg'', stype = ''device'', sopts = []\<rparr>,
                 \<lparr>sname = ''net1'', stype = ''interface'',
                  sopts = [(''proto'', Str ''static''), (''ipaddr'', Str ''10.89.0.1''),
                           (''netmask'', Str ''255.255.255.0'')]\<rparr>],
      firewall = [\<lparr>sname = ''cfg'', stype = ''zone'',
                   sopts = [(''name'', Str ''podman_net1''), (''input'', Str ''DROP''),
                            (''output'', Str ''ACCEPT''), (''forward'', Str ''REJECT''),
                            (''network'', Lst [Some ''net1''])]\<rparr>,
                  \<lparr>sname = ''cfg000'', stype = ''rule'',
                   sopts = [(''name'', Str ''Allow-podman_net1-DNS''),
                            (''src'', Str ''podman_net1''), (''dest_port'', Str ''53''),
                            (''target'', Str ''ACCEPT'')]\<rparr>],
      dhcp = []\<rparr>"

definition w_first :: world where
  "w_first = \<lparr>cfg = st_first,
              trace = [Load Network, Load Firewall, Save st_first, Apply 90, Flush, Load Dhcp]\<rparr>"

definition st_second :: store where
  "st_second =
     st_first\<lparr>network := network st_first @
                  [\<lparr>sname = ''cfg0000'', stype = ''device'', sopts = []\<rparr>]\<rparr>"

definition w_second :: world where
  "w_second = \<lparr>cfg = st_second,
               trace = trace w_first @
                 [Load Network, Load Firewall, Save st_second, Apply 90, Flush, Load Dhcp]\<rparr>"

section \<open>Lemmas\<close>

subsection \<open>Facts about the store operations\<close>

lemma find_app:
  "find P (xs @ ys) = (case find P xs of None \<Rightarrow> find P ys | Some x \<Rightarrow> Some x)"
  by (induction xs) auto

lemma find_SomeD: "find P xs = Some x \<Longrightarrow> P x \<and> x \<in> set xs"
  by (induction xs) (auto split: if_splits)

lemma sname_set_opt [simp]: "sname (set_opt opt val s) = sname s"
  by (simp add: set_opt_def split: option.splits)

lemma stype_set_opt [simp]: "stype (set_opt opt val s) = stype s"
  by (simp add: set_opt_def split: option.splits)

lemma map_of_set_opt:
  "map_of (sopts (set_opt opt val s)) o' = (if o' = opt then settable val else map_of (sopts s) o')"
  by (simp add: set_opt_def settable_def update_conv' delete_conv' split: option.splits)

lemma find_map_sname:
  "(\<And>s. sname (f s) = sname s) \<Longrightarrow> find (\<lambda>s. sname s = n) (map f c) = map_option f (find (\<lambda>s. sname s = n) c)"
  by (induction c) auto

lemma c_get_c_set:
  "c_get sid (c_set sid' opt val c) =
     map_option (\<lambda>s. if Some (sname s) = sid' then set_opt opt val s else s) (c_get sid c)"
proof (cases sid')
  case None
  then show ?thesis by (simp add: c_set_def option.map_ident)
next
  case (Some m)
  show ?thesis
  proof (cases sid)
    case None
    then show ?thesis by (simp add: c_get_def)
  next
    case (Some n)
    have "find (\<lambda>s. sname s = n) (map (\<lambda>s. if sname s = m then set_opt opt val s else s) c)
        = map_option (\<lambda>s. if sname s = m then set_opt opt val s else s) (find (\<lambda>s. sname s = n) c)"
      by (rule find_map_sname) simp
    with Some \<open>sid' = Some m\<close> show ?thesis by (simp add: c_get_def c_set_def)
  qed
qed

lemma c_get_c_set_None [simp]: "c_get sid (c_set sid' opt val c) = None \<longleftrightarrow> c_get sid c = None"
  by (simp add: c_get_c_set)

lemma c_get_opt_c_set:
  "c_get_opt sid o' (c_set sid' opt val c) =
     (if sid = sid' \<and> o' = opt \<and> c_get sid c \<noteq> None then settable val else c_get_opt sid o' c)"
proof (cases "c_get sid c")
  case None
  then show ?thesis by (simp add: c_get_opt_def c_get_c_set)
next
  case (Some s)
  then have n: "sid = Some (sname s)"
    by (cases sid) (auto simp: c_get_def dest: find_SomeD)
  show ?thesis using Some n
    by (auto simp: c_get_opt_def c_get_c_set map_of_set_opt)
qed

lemma c_get_append:
  "c_get sid (c @ [x]) = (case c_get sid c of Some s \<Rightarrow> Some s
                          | None \<Rightarrow> if sid = Some (sname x) then Some x else None)"
  by (cases sid) (auto simp: c_get_def find_app split: option.splits)

lemma max_len_ge: "s \<in> set c \<Longrightarrow> length (sname s) \<le> foldr max (map (\<lambda>s. length (sname s)) c) 0"
  by (induction c) auto

lemma gen_sid_fresh: "s \<in> set c \<Longrightarrow> sname s \<noteq> gen_sid c"
proof
  assume "s \<in> set c" and "sname s = gen_sid c"
  then have "length (gen_sid c) \<le> foldr max (map (\<lambda>s. length (sname s)) c) 0"
    using max_len_ge by metis
  then show False by (simp add: gen_sid_def)
qed

lemma c_get_gen_sid [simp]: "c_get (Some (gen_sid c)) c = None"
  by (auto simp: c_get_def find_None_iff gen_sid_fresh)

lemma gen_sid_nonempty [simp]: "gen_sid c \<noteq> []"
  by (simp add: gen_sid_def)

lemma c_get_in: "s \<in> set c \<Longrightarrow> c_get (Some (sname s)) c \<noteq> None"
  by (auto simp: c_get_def find_None_iff)

lemma c_get_SomeD: "c_get sid c = Some s \<Longrightarrow> s \<in> set c \<and> sid = Some (sname s)"
  by (cases sid) (auto simp: c_get_def find_Some_iff)

lemma c_set_absent: "c_get sid c = None \<Longrightarrow> c_set sid opt val c = c"
  by (cases sid) (auto simp: c_set_def c_get_def find_None_iff intro: map_idI)

lemma c_set_append: "c_set sid opt val (c @ [x]) = c_set sid opt val c @ c_set sid opt val [x]"
  by (cases sid) (auto simp: c_set_def)

lemma c_get_opt_c_add [simp]: "c_get_opt sid o' (c_add typ name c) = c_get_opt sid o' c"
  by (auto simp: c_get_opt_def c_add_def c_get_append split: option.splits)

lemma c_get_c_add_None:
  "c_get sid (c_add typ name c) = None \<longleftrightarrow> c_get sid c = None \<and> sid \<noteq> Some (new_sid name c)"
  by (auto simp: c_add_def c_get_append split: option.splits)

lemma c_get_c_remove:
  "c_get sid (c_remove n c) = (if sid = Some n then None else c_get sid c)"
proof (cases sid)
  case None then show ?thesis by (simp add: c_get_def)
next
  case (Some m)
  have "find (\<lambda>s. sname s = m) (filter (\<lambda>s. sname s \<noteq> n) c) = (if m = n then None else find (\<lambda>s. sname s = m) c)"
    by (induction c) auto
  with Some show ?thesis by (simp add: c_get_def c_remove_def)
qed

lemma c_get_opt_c_remove:
  "c_get_opt sid o' (c_remove n c) = (if sid = Some n then None else c_get_opt sid o' c)"
  by (simp add: c_get_opt_def c_get_c_remove)

lemmas uci_defs = uci_get_def uci_get_opt_def uci_set_def uci_unset_def uci_add_def
  uci_remove_def uci_sections_def



lemma settable_Lst [simp]: "settable (Some (Lst xs)) = Some (Lst xs)"
  by (simp add: settable_def)



lemma c_get_opt_gen_sid [simp]: "c_get_opt (Some (gen_sid c)) opt c = None"
  by (simp add: c_get_opt_def)








lemma cfg_step [simp]: "cfg (step st es w) = st"
  and trace_step [simp]: "trace (step st es w) = trace w @ es"
  and step_step [simp]: "step st' es' (step st es w) = step st' (es @ es') w"
  by (simp_all add: step_def)

lemma emit_step: "emit es w = step (cfg w) es w"
  and edit_step: "edit f w = step (f (cfg w)) [] w"
  by (simp_all add: step_def emit_def edit_def)

lemmas promise_defs = then_p_def catch_p_def resolve_def reject_def load_all_def uci_load_def
  uci_save_def uci_apply_def flushCache_def fs_exec_def emit_step edit_step

lemma configureDnsmasq_run:
  "configureDnsmasq e b en w =
     (if \<not> load_ok e Dhcp then (Inl StoreError, step (cfg w) [Load Dhcp] w)
      else if fst (dnsmasq_edit b en (cfg w))
      then (Inr (), step (snd (dnsmasq_edit b en (cfg w))) [Load Dhcp] w)
      else ((if apply_ok e \<and> save_ok e then Inr () else Inl StoreError),
            step (snd (dnsmasq_edit b en (cfg w)))
              (Load Dhcp # dnsmasq_tail e (snd (dnsmasq_edit b en (cfg w)))) w))"
  by (simp add: configureDnsmasq_def restartDnsmasq_def promise_defs dnsmasq_tail_def)

lemma createIntegration_run:
  assumes "subnet options = Some sn"
  shows "createIntegration e name options w =
     (if \<not> (load_ok e Network \<and> load_ok e Firewall)
      then (Inl StoreError, step (cfg w) [Load Network, Load Firewall] w)
      else if \<not> commit_ok e
      then (Inl StoreError, step (create_args e name options sn (cfg w))
              ([Load Network, Load Firewall] @ commit_events e (create_args e name options sn (cfg w))) w)
      else if needsBridge (or_default (driver options) ''bridge'')
      then configureDnsmasq e (bridgeName options) True
             (step (create_args e name options sn (cfg w))
                ([Load Network, Load Firewall] @ commit_events e (create_args e name options sn (cfg w))) w)
      else (Inr (), step (create_args e name options sn (cfg w))
              ([Load Network, Load Firewall] @ commit_events e (create_args e name options sn (cfg w))) w))"
  using assms
  by (simp add: createIntegration_def create_args_def promise_defs Let_def commit_events_def commit_ok_def)

lemma removeIntegration_reject:
  assumes "remove_sync name dev (or_default driver0 ''bridge'') (cfg w) = Inl err"
  shows "removeIntegration e name dev driver0 w =
     (if \<not> (load_ok e Network \<and> load_ok e Firewall)
      then (Inl StoreError, step (cfg w) [Load Network, Load Firewall] w)
      else (Inl err, step (cfg w) [Load Network, Load Firewall] w))"
  using assms by (simp add: removeIntegration_def promise_defs Let_def)

lemma removeIntegration_run:
  assumes "remove_sync name dev (or_default driver0 ''bridge'') (cfg w) = Inr (b, st)"
  shows "removeIntegration e name dev driver0 w =
     (if \<not> (load_ok e Network \<and> load_ok e Firewall)
      then (Inl StoreError, step (cfg w) [Load Network, Load Firewall] w)
      else if \<not> commit_ok e
      then (Inl StoreError, step st ([Load Network, Load Firewall] @ commit_events e st) w)
      else if needsBridge (or_default driver0 ''bridge'') \<and> b
      then configureDnsmasq e (Some dev) False
             (step st ([Load Network, Load Firewall] @ commit_events e st) w)
      else (Inr (), step st ([Load Network, Load Firewall] @ commit_events e st) w))"
  using assms
  by (simp add: removeIntegration_def promise_defs Let_def commit_events_def commit_ok_def)

lemma isIntegrationComplete_run:
  "isIntegrationComplete e name drv w =
     (Inr (if load_ok e Network \<and> load_ok e Dhcp
           then status_check name (or_default drv ''bridge'') (cfg w)
           else unknown_status (or_default drv ''bridge'')),
      step (cfg w) [Load Network, Load Dhcp] w)"
  by (simp add: isIntegrationComplete_def promise_defs Let_def unknown_status_def)

lemma or_default_idem [simp]: "or_default (Some (or_default a b)) b = or_default a b"
  by (simp add: or_default_def split: option.splits)

lemma iic_repair:
  "isIntegrationComplete e name (Some (or_default (driver options) ''bridge'')) w =
     (Inr (repair_status e name options (cfg w)), step (cfg w) [Load Network, Load Dhcp] w)"
  by (simp add: isIntegrationComplete_run repair_status_def)

lemma then_p_Inr: "m w = (Inr x, w') \<Longrightarrow> then_p m f w = f x w'"
  by (simp add: then_p_def)

lemma repairIntegration_complete:
  assumes "complete (repair_status e name options (cfg w))"
  shows "repairIntegration e name options w =
     (Inr \<lparr>added = [], skipped = [''complete''],
           rdetails = details (repair_status e name options (cfg w))\<rparr>,
      step (cfg w) [Load Network, Load Dhcp] w)"
  unfolding repairIntegration_def Let_def
  by (subst then_p_Inr [OF iic_repair]) (simp add: assms resolve_def)

lemma repairIntegration_unknown:
  assumes "\<not> (load_ok e Network \<and> load_ok e Dhcp)"
  shows "repairIntegration e name options w =
     (Inl StoreError, step (cfg w) [Load Network, Load Dhcp, Load Network, Load Dhcp] w)"
proof -
  have "\<not> complete (repair_status e name options (cfg w))"
    using assms by (auto simp: repair_status_def unknown_status_def)
  then show ?thesis
    unfolding repairIntegration_def Let_def
    using assms by (subst then_p_Inr [OF iic_repair]) (auto simp: promise_defs)
qed

lemma repairIntegration_reject:
  assumes "\<not> complete (repair_status e name options (cfg w))"
    and "load_ok e Network" and "load_ok e Dhcp"
    and "repair_args e name options (cfg w) = (Inl err, st)"
  shows "repairIntegration e name options w =
     (Inl err, step st [Load Network, Load Dhcp, Load Network, Load Dhcp] w)"
  unfolding repairIntegration_def Let_def
  using assms
  by (subst then_p_Inr [OF iic_repair]) (simp add: promise_defs repair_args_def)

lemma repairIntegration_run:
  assumes "\<not> complete (repair_status e name options (cfg w))"
    and "load_ok e Network" and "load_ok e Dhcp"
    and "repair_args e name options (cfg w) = (Inr as, st)"
  shows "repairIntegration e name options w =
     (if \<not> commit_ok e
      then (Inl StoreError,
            step st ([Load Network, Load Dhcp, Load Network, Load Dhcp] @ commit_events e st) w)
      else if \<not> hasDnsmasqExclusion (details (repair_status e name options (cfg w))) \<and>
              needsBridge (or_default (driver options) ''bridge'')
      then (case configureDnsmasq e (bridgeName options) True
                   (step st ([Load Network, Load Dhcp, Load Network, Load Dhcp] @ commit_events e st) w) of
              (Inl err, w') \<Rightarrow> (Inl err, w')
            | (Inr u, w') \<Rightarrow>
                (Inr \<lparr>added = fst as @ [''dnsmasq''], skipped = snd as,
                      rdetails = details (repair_status e name options (cfg w))\<rparr>, w'))
      else (Inr \<lparr>added = fst as, skipped = snd as @ [''dnsmasq''],
                 rdetails = details (repair_status e name options (cfg w))\<rparr>,
            step st ([Load Network, Load Dhcp, Load Network, Load Dhcp] @ commit_events e st) w))"
  unfolding repairIntegration_def Let_def
  using assms
  by (subst then_p_Inr [OF iic_repair])
     (simp add: promise_defs repair_args_def commit_events_def commit_ok_def
        split: prod.splits sum.splits)

lemma firewall_dnsmasq_edit [simp]: "firewall (snd (dnsmasq_edit b en st)) = firewall st"
  and network_dnsmasq_edit [simp]: "network (snd (dnsmasq_edit b en st)) = network st"
  by (simp_all add: dnsmasq_edit_def Let_def uci_defs split: list.splits)

lemma firewall_configureDnsmasq [simp]:
  "firewall (cfg (snd (configureDnsmasq e b en w))) = firewall (cfg w)"
  and network_configureDnsmasq [simp]:
  "network (cfg (snd (configureDnsmasq e b en w))) = network (cfg w)"
  by (simp_all add: configureDnsmasq_run)

lemma firewall_create_device [simp]: "firewall (create_device dev options st) = firewall st"
  and dhcp_create_device [simp]: "dhcp (create_device dev options st) = dhcp st"
  by (simp_all add: create_device_def Let_def uci_defs)

lemma firewall_create_interface [simp]:
  "firewall (create_interface name dev nm options st) = firewall st"
  and dhcp_create_interface [simp]: "dhcp (create_interface name dev nm options st) = dhcp st"
  by (simp_all add: create_interface_def Let_def uci_defs)



lemma firewall_remove_interface [simp]: "firewall (remove_interface name st) = firewall st"
  and dhcp_remove_interface [simp]: "dhcp (remove_interface name st) = dhcp st"
  by (simp_all add: remove_interface_def Let_def uci_defs)

lemma firewall_remove_bridge [simp]: "firewall (snd (remove_bridge name dev drv st)) = firewall st"
  and dhcp_remove_bridge [simp]: "dhcp (snd (remove_bridge name dev drv st)) = dhcp st"
  by (simp_all add: remove_bridge_def Let_def uci_defs)


lemma firewall_repair_args [simp]:
  "firewall (snd (repair_args e name options st)) = firewall st"
  by (simp add: repair_args_def repair_sync_def repair_device_def repair_interface_def Let_def
      uci_defs split: option.splits)

text \<open>
  C5: \<open>repairIntegration\<close> leaves the firewall domain as it is, in every environment and
  store; and when the status check reports the integration complete, it returns
  \<open>added = []\<close> and \<open>skipped = ['complete']\<close>, the store is unchanged and the only
  calls issued are the two loads of the status check.
\<close>

theorem repair_leaves_firewall:
  "firewall (cfg (snd (repairIntegration e name options w))) = firewall (cfg w) \<and>
   (\<forall>status w1.
      isIntegrationComplete e name (Some (or_default (driver options) ''bridge'')) w
        = (Inr status, w1) \<and> complete status \<longrightarrow>
      repairIntegration e name options w =
        (Inr \<lparr>added = [], skipped = [''complete''], rdetails = details status\<rparr>, w1) \<and>
      cfg w1 = cfg w \<and> trace w1 = trace w @ [Load Network, Load Dhcp])"
proof
  show "firewall (cfg (snd (repairIntegration e name options w))) = firewall (cfg w)"
  proof (cases "complete (repair_status e name options (cfg w))")
    case True
    then show ?thesis by (simp add: repairIntegration_complete)
  next
    case nc: False
    show ?thesis
    proof (cases "load_ok e Network \<and> load_ok e Dhcp")
      case False
      then show ?thesis by (simp add: repairIntegration_unknown)
    next
      case True
      obtain r st where rs: "repair_args e name options (cfg w) = (r, st)"
        by (cases "repair_args e name options (cfg w)")
      then have st: "firewall st = firewall (cfg w)"
        using firewall_repair_args [of e name options "cfg w"] by simp
      show ?thesis
      proof (cases r)
        case (Inl err)
        with nc True rs st show ?thesis by (simp add: repairIntegration_reject)
      next
        case (Inr as)
        with nc True rs st show ?thesis
          by (simp add: repairIntegration_run split: prod.splits sum.splits)
             (metis firewall_configureDnsmasq cfg_step snd_conv)
      qed
    qed
  qed
next
  show "\<forall>status w1.
      isIntegrationComplete e name (Some (or_default (driver options) ''bridge'')) w
        = (Inr status, w1) \<and> complete status \<longrightarrow>
      repairIntegration e name options w =
        (Inr \<lparr>added = [], skipped = [''complete''], rdetails = details status\<rparr>, w1) \<and>
      cfg w1 = cfg w \<and> trace w1 = trace w @ [Load Network, Load Dhcp]"
    by (auto simp: iic_repair repairIntegration_complete)
qed

theorem repair_leaves_firewall_witness:
  "isIntegrationComplete env_ok ''net1'' (Some (or_default (driver opts_net1) ''bridge'')) w_two =
     (Inr \<lparr>complete = True, missing = [],
           details = \<lparr>hasInterface = True, hasDevice = True, hasDnsmasqExclusion = True,
                      ddriver = ''bridge''\<rparr>\<rparr>,
      \<lparr>cfg = cfg w_two, trace = [Load Network, Load Dhcp]\<rparr>) \<and>
   repairIntegration env_ok ''net1'' opts_net1 w_two =
     (Inr \<lparr>added = [], skipped = [''complete''],
           rdetails = \<lparr>hasInterface = True, hasDevice = True, hasDnsmasqExclusion = True,
                       ddriver = ''bridge''\<rparr>\<rparr>,
      \<lparr>cfg = cfg w_two, trace = [Load Network, Load Dhcp]\<rparr>)"
proof -
  have h: "isIntegrationComplete env_ok ''net1'' (Some (or_default (driver opts_net1) ''bridge'')) w_two =
     (Inr \<lparr>complete = True, missing = [],
           details = \<lparr>hasInterface = True, hasDevice = True, hasDnsmasqExclusion = True,
                      ddriver = ''bridge''\<rparr>\<rparr>,
      \<lparr>cfg = cfg w_two, trace = [Load Network, Load Dhcp]\<rparr>)"
    by code_simp
  from repair_leaves_firewall [of env_ok "''net1''" opts_net1 w_two] h
  show ?thesis by simp
qed

lemma network_remove_from_zone:
  "remove_from_zone name st = Inr st' \<Longrightarrow> network st' = network st \<and> dhcp st' = dhcp st"
  by (cases "find_zone_of name st")
     (auto simp: remove_from_zone_def Let_def uci_defs split: if_splits option.splits uval.splits)

lemma filter_c_remove:
  assumes "\<And>s. sname s \<noteq> name \<Longrightarrow> P' s = P s" and "\<And>s. sname s = name \<Longrightarrow> \<not> P s"
  shows "filter P' (c_remove name c) = filter P c"
  using assms by (induction c) (auto simp: c_remove_def)

lemma others_after_remove:
  "filter (\<lambda>x. stype x = t \<and> c_get_opt (Some (sname x)) opt (c_remove name c) = v \<and>
                sname x \<noteq> name) (c_remove name c)
   = filter (\<lambda>x. stype x = t \<and> c_get_opt (Some (sname x)) opt c = v \<and> sname x \<noteq> name) c"
  by (rule filter_c_remove) (auto simp: c_get_opt_c_remove)

lemma otherInterfaces_remove_interface [simp]:
  "otherInterfaces name dev (remove_interface name st) = otherInterfaces name dev st"
  by (simp add: otherInterfaces_def remove_interface_def uci_defs others_after_remove)

lemma otherInterfaces_network:
  "network st = network st' \<Longrightarrow> otherInterfaces name dev st = otherInterfaces name dev st'"
  by (simp add: otherInterfaces_def uci_defs)

lemma c_remove_absent: "c_get (Some n) c = None \<Longrightarrow> c_remove n c = c"
  by (auto simp: c_remove_def c_get_def find_None_iff)

lemma network_remove_interface: "network (remove_interface name st) = c_remove name (network st)"
  by (auto simp: remove_interface_def uci_defs c_remove_absent)

lemma remove_bridge_run:
  "remove_bridge name dev drv st =
     (if needsBridge drv \<and> otherInterfaces name dev st = []
      then (True, st\<lparr>network := c_remove dev (network st)\<rparr>) else (False, st))"
  by (auto simp: remove_bridge_def uci_defs c_remove_absent)

text \<open>What the synchronous callback of removeIntegration leaves, when it does not throw.\<close>

lemma remove_sync_run:
  assumes "remove_sync name dev drv st = Inr (b, st')"
  shows "b = (needsBridge drv \<and> otherInterfaces name dev st = []) \<and>
         network st' = (if b then c_remove dev (c_remove name (network st))
                        else c_remove name (network st)) \<and>
         dhcp st' = dhcp st"
proof -
  from assms obtain st1 where st1: "remove_from_zone name st = Inr st1"
    and r: "remove_bridge name dev drv (remove_interface name st1) = (b, st')"
    by (auto simp: remove_sync_def split: sum.splits)
  have n: "network st1 = network st" "dhcp st1 = dhcp st"
    using network_remove_from_zone [OF st1] by auto
  have o: "otherInterfaces name dev st1 = otherInterfaces name dev st"
    using n by (intro otherInterfaces_network)
  have n2: "network (remove_interface name st1) = c_remove name (network st)"
    "dhcp (remove_interface name st1) = dhcp st"
    using n by (simp_all add: network_remove_interface)
  have r': "(b, st') =
      (if needsBridge drv \<and> otherInterfaces name dev st = []
       then (True, (remove_interface name st1)
                     \<lparr>network := c_remove dev (network (remove_interface name st1))\<rparr>)
       else (False, remove_interface name st1))"
    using r o by (simp add: remove_bridge_run)
  show ?thesis
  proof (cases "needsBridge drv \<and> otherInterfaces name dev st = []")
    case True
    with r' have "b" "st' = (remove_interface name st1)
                     \<lparr>network := c_remove dev (network (remove_interface name st1))\<rparr>"
      by simp_all
    with True n2 show ?thesis by simp
  next
    case False
    with r' have "\<not> b" "st' = remove_interface name st1" by simp_all
    with False n2 show ?thesis by simp
  qed
qed


lemma filter_c_set:
  "filter (\<lambda>s. stype s = t) (c_set sid opt val c) = c_set sid opt val (filter (\<lambda>s. stype s = t) c)"
  by (cases sid) (auto simp: c_set_def filter_map comp_def intro!: filter_cong)

lemma c_set_Cons:
  "c_set sid opt val (m # ms) =
     (if sid = Some (sname m) then set_opt opt val m else m) # c_set sid opt val ms"
  by (cases sid) (auto simp: c_set_def)

lemma first_section_in:
  "filter (\<lambda>s. stype s = t) c = m # ms \<Longrightarrow> c_get (Some (sname m)) c \<noteq> None"
proof -
  assume "filter (\<lambda>s. stype s = t) c = m # ms"
  then have "m \<in> set (filter (\<lambda>s. stype s = t) c)" by simp
  then show ?thesis by (simp add: c_get_in)
qed



lemma c_get_c_remove_other: "n \<noteq> m \<Longrightarrow> c_get (Some n) (c_remove m c) = c_get (Some n) c"
  by (simp add: c_get_c_remove)


lemma hasIntegration_res:
  "fst (hasIntegration e n w) = Inr (load_ok e Network \<and> uci_get Network (Some n) (cfg w) \<noteq> None)"
  by (simp add: hasIntegration_def catch_p_def then_p_def uci_load_def load_all_def resolve_def emit_def)

lemma getIntegration_res:
  "\<exists>r. fst (getIntegration e n w) = Inr r \<and> (\<not> load_ok e Network \<longrightarrow> r = None)"
  by (simp add: getIntegration_def catch_p_def then_p_def uci_load_def load_all_def resolve_def emit_def)

text \<open>
  C10: \<open>hasIntegration\<close> and \<open>getIntegration\<close> resolve in every environment, store and
  network name; when the load of the network domain fails, the first resolves to false and
  the second to null.
\<close>

theorem hasIntegration_getIntegration_never_reject:
  "(\<exists>b. fst (hasIntegration e n w) = Inr b) \<and> (\<exists>r. fst (getIntegration e n w) = Inr r) \<and>
   (\<not> load_ok e Network \<longrightarrow>
      fst (hasIntegration e n w) = Inr False \<and> fst (getIntegration e n w) = Inr None)"
  using getIntegration_res [of e n w] by (auto simp: hasIntegration_res)

theorem hasIntegration_getIntegration_never_reject_witness:
  "\<not> load_ok env_down Network \<and>
   fst (hasIntegration env_down ''net1'' w_two) = Inr False \<and>
   fst (getIntegration env_down ''net1'' w_two) = Inr None"
proof -
  have h: "\<not> load_ok env_down Network" by (simp add: env_down_def)
  with hasIntegration_getIntegration_never_reject [of env_down "''net1''" w_two]
  show ?thesis by blast
qed

text \<open>
  C8: \<open>isIntegrationComplete\<close> resolves in every environment, store, network name and
  driver; when one of its two loads fails, it resolves to
  \<open>{complete: false, missing: ['unknown'], details}\<close>, the details being the initial ones
  (nothing found, and the driver).
\<close>

theorem isIntegrationComplete_never_rejects:
  "(\<exists>r. fst (isIntegrationComplete e n drv w) = Inr r) \<and>
   (\<not> (load_ok e Network \<and> load_ok e Dhcp) \<longrightarrow>
      fst (isIntegrationComplete e n drv w) =
        Inr \<lparr>complete = False, missing = [''unknown''],
             details = \<lparr>hasInterface = False, hasDevice = False, hasDnsmasqExclusion = False,
                        ddriver = or_default drv ''bridge''\<rparr>\<rparr>)"
  by (auto simp: isIntegrationComplete_run unknown_status_def)

theorem isIntegrationComplete_never_rejects_witness:
  "\<not> (load_ok env_down Network \<and> load_ok env_down Dhcp) \<and>
   fst (isIntegrationComplete env_down ''net1'' None w_two) =
     Inr \<lparr>complete = False, missing = [''unknown''],
          details = \<lparr>hasInterface = False, hasDevice = False, hasDnsmasqExclusion = False,
                     ddriver = ''bridge''\<rparr>\<rparr>"
proof -
  have h: "\<not> (load_ok env_down Network \<and> load_ok env_down Dhcp)" by (simp add: env_down_def)
  have d: "or_default None ''bridge'' = ''bridge''" by (simp add: or_default_def)
  from isIntegrationComplete_never_rejects [of env_down "''net1''" None w_two] h d
  show ?thesis by simp
qed

lemma iic_ok:
  "load_ok e Network \<Longrightarrow> load_ok e Dhcp \<Longrightarrow>
   fst (isIntegrationComplete e n drv w) = Inr (status_check n (or_default drv ''bridge'') (cfg w))"
  by (simp add: isIntegrationComplete_run)

lemma uci_get_opt_absent:
  "uci_get d sid st = None \<Longrightarrow> uci_get_opt d sid opt st = None"
  by (simp add: uci_get_opt_def uci_get_def c_get_opt_def)

text \<open>
  C6, as the code has it. \<open>isIntegrationComplete\<close> always resolves. For a bridge driver,
  with both loads succeeding: when the interface names a device whose section exists and
  the option \<open>type\<close> of that section is not exactly \<open>bridge\<close>, the status reports
  \<open>device\<close> missing, the device does not count as present and the status is not
  complete; the device counts as present exactly when the interface names a device whose
  option \<open>type\<close> is \<open>bridge\<close>; and when the dhcp domain has no dnsmasq section, the
  flag \<open>hasDnsmasqExclusion\<close> is the flag \<open>hasDevice\<close>: the exclusion counts as present
  exactly when the device check passed. In every environment and for every driver, when
  the dhcp domain has no dnsmasq section, \<open>dnsmasq\<close> is not reported missing.
\<close>

theorem isIntegrationComplete_device_type_and_no_dnsmasq:
  "\<exists>r. fst (isIntegrationComplete e n drv w) = Inr r \<and>
     (load_ok e Network \<and> load_ok e Dhcp \<and> needsBridge (or_default drv ''bridge'') \<longrightarrow>
        (\<forall>dv. uci_get_opt Network (Some n) ''device'' (cfg w) = Some dv \<and> truthy_val dv \<and>
              uci_get Network (Some (js_toString dv)) (cfg w) \<noteq> None \<and>
              uci_get_opt Network (Some (js_toString dv)) ''type'' (cfg w) \<noteq> Some (Str ''bridge'')
              \<longrightarrow> ''device'' \<in> set (missing r) \<and> \<not> hasDevice (details r) \<and> \<not> complete r) \<and>
        (hasDevice (details r) \<longleftrightarrow>
           (\<exists>dv. uci_get_opt Network (Some n) ''device'' (cfg w) = Some dv \<and> truthy_val dv \<and>
                 uci_get_opt Network (Some (js_toString dv)) ''type'' (cfg w)
                   = Some (Str ''bridge''))) \<and>
        (uci_sections Dhcp ''dnsmasq'' (cfg w) = [] \<longrightarrow>
           hasDnsmasqExclusion (details r) = hasDevice (details r))) \<and>
     (uci_sections Dhcp ''dnsmasq'' (cfg w) = [] \<longrightarrow> ''dnsmasq'' \<notin> set (missing r))"
proof (cases "load_ok e Network \<and> load_ok e Dhcp")
  case False
  then show ?thesis by (auto simp: isIntegrationComplete_run unknown_status_def)
next
  case True
  let ?r = "status_check n (or_default drv ''bridge'') (cfg w)"
  have r: "fst (isIntegrationComplete e n drv w) = Inr ?r"
    using True by (simp add: iic_ok)
  have a: "''device'' \<in> set (missing ?r) \<and> \<not> hasDevice (details ?r) \<and> \<not> complete ?r"
    if "needsBridge (or_default drv ''bridge'')"
      and "uci_get_opt Network (Some n) ''device'' (cfg w) = Some dv" and "truthy_val dv"
      and "uci_get_opt Network (Some (js_toString dv)) ''type'' (cfg w) \<noteq> Some (Str ''bridge'')"
    for dv
    using that
    by (auto simp: status_check_def check_device_def check_interface_def Let_def)
  have b: "hasDevice (details ?r) \<longleftrightarrow>
           (\<exists>dv. uci_get_opt Network (Some n) ''device'' (cfg w) = Some dv \<and> truthy_val dv \<and>
                 uci_get_opt Network (Some (js_toString dv)) ''type'' (cfg w)
                   = Some (Str ''bridge''))"
    if "needsBridge (or_default drv ''bridge'')"
    using that
    by (auto simp: status_check_def check_device_def check_interface_def check_dnsmasq_def
        Let_def uci_get_opt_absent split: option.splits list.splits)
  have c: "hasDnsmasqExclusion (details ?r) = hasDevice (details ?r)"
    if "needsBridge (or_default drv ''bridge'')" and "uci_sections Dhcp ''dnsmasq'' (cfg w) = []"
    using that
    by (auto simp: status_check_def check_device_def check_interface_def check_dnsmasq_def
        Let_def split: option.splits)
  have d: "''dnsmasq'' \<notin> set (missing ?r)" if "uci_sections Dhcp ''dnsmasq'' (cfg w) = []"
    using that
    by (auto simp: status_check_def check_device_def check_interface_def check_dnsmasq_def
        Let_def split: option.splits)
  from r a b c d show ?thesis by blast
qed

text \<open>
  C6 as stated fails: in \<open>w_nodev\<close> the dhcp domain has no dnsmasq section and the device
  \<open>br0\<close> of \<open>net1\<close> has no section. The dnsmasq check is not reached, and the status
  has \<open>hasDnsmasqExclusion\<close> false: the exclusion does not count as present.
\<close>

theorem isIntegrationComplete_no_dnsmasq_counterexample:
  "uci_sections Dhcp ''dnsmasq'' (cfg w_nodev) = [] \<and>
   fst (isIntegrationComplete env_ok ''net1'' (Some ''bridge'') w_nodev) =
     Inr \<lparr>complete = False, missing = [''device''],
          details = \<lparr>hasInterface = True, hasDevice = False, hasDnsmasqExclusion = False,
                     ddriver = ''bridge''\<rparr>\<rparr>"
  by code_simp

theorem isIntegrationComplete_device_type_and_no_dnsmasq_witness:
  "fst (isIntegrationComplete env_ok ''net1'' (Some ''bridge'') w_wrongtype) =
     Inr \<lparr>complete = False, missing = [''device''],
          details = \<lparr>hasInterface = True, hasDevice = False, hasDnsmasqExclusion = False,
                     ddriver = ''bridge''\<rparr>\<rparr> \<and>
   fst (isIntegrationComplete env_ok ''net1'' (Some ''bridge'') w_nodns) =
     Inr \<lparr>complete = True, missing = [],
          details = \<lparr>hasInterface = True, hasDevice = True, hasDnsmasqExclusion = True,
                     ddriver = ''bridge''\<rparr>\<rparr>"
proof -
  have e: "load_ok env_ok Network \<and> load_ok env_ok Dhcp \<and>
           needsBridge (or_default (Some ''bridge'') ''bridge'')"
    by (simp add: env_ok_def needsBridge_def or_default_def)
  have a: "uci_get_opt Network (Some ''net1'') ''device'' (cfg w_wrongtype) = Some (Str ''br0'') \<and>
    truthy_val (Str ''br0'') \<and>
    uci_get Network (Some (js_toString (Str ''br0''))) (cfg w_wrongtype) \<noteq> None \<and>
    uci_get_opt Network (Some (js_toString (Str ''br0''))) ''type'' (cfg w_wrongtype)
       \<noteq> Some (Str ''bridge'')"
    by code_simp
  have b: "uci_sections Dhcp ''dnsmasq'' (cfg w_nodns) = []" by code_simp
  from isIntegrationComplete_device_type_and_no_dnsmasq
         [of env_ok "''net1''" "Some ''bridge''" w_wrongtype] e a
  obtain r where r: "fst (isIntegrationComplete env_ok ''net1'' (Some ''bridge'') w_wrongtype) = Inr r"
    "''device'' \<in> set (missing r)" "\<not> complete r"
    by blast
  from isIntegrationComplete_device_type_and_no_dnsmasq
         [of env_ok "''net1''" "Some ''bridge''" w_nodns] e b
  obtain r' where r': "fst (isIntegrationComplete env_ok ''net1'' (Some ''bridge'') w_nodns) = Inr r'"
    "''dnsmasq'' \<notin> set (missing r')" "hasDnsmasqExclusion (details r') = hasDevice (details r')"
    by blast
  have "fst (isIntegrationComplete env_ok ''net1'' (Some ''bridge'') w_wrongtype) =
     Inr \<lparr>complete = False, missing = [''device''],
          details = \<lparr>hasInterface = True, hasDevice = False, hasDnsmasqExclusion = False,
                     ddriver = ''bridge''\<rparr>\<rparr>"
    by code_simp
  moreover have "fst (isIntegrationComplete env_ok ''net1'' (Some ''bridge'') w_nodns) =
     Inr \<lparr>complete = True, missing = [],
          details = \<lparr>hasInterface = True, hasDevice = True, hasDnsmasqExclusion = True,
                     ddriver = ''bridge''\<rparr>\<rparr>"
    by code_simp
  ultimately show ?thesis using r r' by simp
qed





text \<open>
  C3: the code departs from the claim, and from its own comment on the last step
  (\<^verbatim>\<open>Remove dnsmasq exclusion ONLY for bridge networks if bridge was deleted\<close>). The flag
  that step reads is set from the count of the other interfaces on the device, before the
  cleanup step looks for the section of the device. In \<open>w_orphan\<close> the device \<open>br0\<close> of
  \<open>net1\<close> has no section and is in the exclusion list: the removal of \<open>net1\<close> removes
  the interface and nothing else from the network domain, no device section being there
  to delete, and still takes \<open>br0\<close> out of the exclusion list and restarts dnsmasq.
\<close>

theorem removeIntegration_clears_exclusion_without_deletion:
  "network (cfg w_orphan) = [interface_section ''net1'' ''br0'' ''10.89.0.1''] \<and>
   uci_get Network (Some ''br0'') (cfg w_orphan) = None \<and>
   dnsmasq_excluded ''br0'' (cfg w_orphan) \<and>
   fst (removeIntegration env_ok ''net1'' ''br0'' (Some ''bridge'') w_orphan) = Inr () \<and>
   network (cfg (snd (removeIntegration env_ok ''net1'' ''br0'' (Some ''bridge'') w_orphan))) = [] \<and>
   \<not> dnsmasq_excluded ''br0''
        (cfg (snd (removeIntegration env_ok ''net1'' ''br0'' (Some ''bridge'') w_orphan))) \<and>
   dhcp (cfg (snd (removeIntegration env_ok ''net1'' ''br0'' (Some ''bridge'') w_orphan)))
     = [\<lparr>sname = ''cfg03'', stype = ''dnsmasq'', sopts = []\<rparr>] \<and>
   trace (snd (removeIntegration env_ok ''net1'' ''br0'' (Some ''bridge'') w_orphan))
     = [Load Network, Load Firewall,
        Save \<lparr>network = [], firewall = [], dhcp = dhcp (cfg w_orphan)\<rparr>, Apply 90, Flush,
        Load Dhcp, Apply 90,
        Save \<lparr>network = [], firewall = [],
              dhcp = [\<lparr>sname = ''cfg03'', stype = ''dnsmasq'', sopts = []\<rparr>]\<rparr>,
        Exec ''/etc/init.d/dnsmasq'' [''restart'']]"
  by code_simp

lemma new_events_step [simp]: "new_events w (step st es w) = es"
  by (simp add: new_events_def)

lemma commit_events_ok: "commit_ok e \<Longrightarrow> commit_events e st = [Save st, Apply 90, Flush]"
  by (simp add: commit_events_def commit_ok_def)

lemma dnsmasq_tail_ok:
  "apply_ok e \<Longrightarrow> save_ok e \<Longrightarrow>
   dnsmasq_tail e st = [Apply 90, Save st, Exec ''/etc/init.d/dnsmasq'' [''restart'']]"
  by (simp add: dnsmasq_tail_def)

lemma dnsmasq_skip: "fst (dnsmasq_edit b en st) = (uci_sections Dhcp ''dnsmasq'' st = [])"
  by (simp add: dnsmasq_edit_def Let_def split: list.splits)

lemma dnsmasq_edit_skipped:
  "uci_sections Dhcp ''dnsmasq'' st = [] \<Longrightarrow> snd (dnsmasq_edit b en st) = st"
  by (simp add: dnsmasq_edit_def)

lemma store_fields:
  "network st' = network st \<Longrightarrow> firewall st' = firewall st \<Longrightarrow>
   \<lparr>network = network st', firewall = firewall st', dhcp = dhcp st\<rparr> = st"
  by simp

text \<open>The commit calls of an operation that ends with \<open>_configureDnsmasq\<close>.\<close>

lemma commit_then_dnsmasq:
  assumes "configureDnsmasq e b en (step st (ls @ [Save st, Apply 90, Flush]) w) = (Inr u, w')"
    and "commits ls = []" and "dhcp st = dhcp (cfg w)"
  shows "if uci_sections Dhcp ''dnsmasq'' st \<noteq> [] then two_commits w w' else one_commit w w'"
proof (cases "uci_sections Dhcp ''dnsmasq'' st = []")
  case True
  with assms(1,2) show ?thesis
    by (auto simp: configureDnsmasq_run dnsmasq_skip dnsmasq_edit_skipped one_commit_def
        commits_def split: if_splits)
next
  case False
  with assms(1) have ok: "apply_ok e" "save_ok e" "load_ok e Dhcp"
    by (auto simp: configureDnsmasq_run dnsmasq_skip split: if_splits)
  have "\<lparr>network = network (snd (dnsmasq_edit b en st)),
         firewall = firewall (snd (dnsmasq_edit b en st)), dhcp = dhcp (cfg w)\<rparr> = st"
    using store_fields [of "snd (dnsmasq_edit b en st)" st] assms(3) by simp
  with assms(1,2) False ok show ?thesis
    by (auto simp: configureDnsmasq_run dnsmasq_skip two_commits_def commits_def
        dnsmasq_tail_ok)
qed

lemma commit_alone:
  assumes "commits ls = []"
  shows "one_commit w (step st (ls @ [Save st, Apply 90, Flush]) w)"
  using assms by (simp add: one_commit_def commits_def)

lemma dhcp_ensure_zone [simp]: "dhcp (ensure_zone zone name st) = dhcp st"
  by (simp add: ensure_zone_def Let_def uci_defs split: option.splits)

lemma dhcp_ensure_dns_rule [simp]: "dhcp (ensure_dns_rule zone st) = dhcp st"
  by (simp add: ensure_dns_rule_def Let_def uci_defs split: option.splits)

lemma dhcp_create_args [simp]: "dhcp (create_args e name options sn st) = dhcp st"
  by (simp add: create_args_def create_sync_def Let_def)

lemma create_commits:
  assumes "createIntegration e name options w = (Inr u, w')"
  shows "if needsBridge (or_default (driver options) ''bridge'') \<and>
            uci_sections Dhcp ''dnsmasq'' (cfg w) \<noteq> []
         then two_commits w w' else one_commit w w'"
proof (cases "subnet options")
  case None
  with assms show ?thesis by (simp add: createIntegration_def reject_def)
next
  case (Some sn)
  note run = createIntegration_run [OF Some, of e name w]
  from assms run have ok: "load_ok e Network \<and> load_ok e Firewall" "commit_ok e"
    by (auto split: if_splits)
  have l: "commits [Load Network, Load Firewall] = []" by (simp add: commits_def)
  have d: "dhcp (create_args e name options sn (cfg w)) = dhcp (cfg w)" by simp
  show ?thesis
  proof (cases "needsBridge (or_default (driver options) ''bridge'')")
    case True
    with assms run ok have
      "configureDnsmasq e (bridgeName options) True
         (step (create_args e name options sn (cfg w))
            ([Load Network, Load Firewall] @
             [Save (create_args e name options sn (cfg w)), Apply 90, Flush]) w) = (Inr u, w')"
      by (simp add: commit_events_ok)
    from commit_then_dnsmasq [OF this l d] True show ?thesis by (simp add: uci_defs)
  next
    case False
    with assms run ok have
      "w' = step (create_args e name options sn (cfg w))
            ([Load Network, Load Firewall] @
             [Save (create_args e name options sn (cfg w)), Apply 90, Flush]) w"
      by (simp add: commit_events_ok)
    with commit_alone [OF l] False show ?thesis by simp
  qed
qed

lemma remove_commits:
  assumes "removeIntegration e name dev drv w = (Inr u, w')"
  shows "if needsBridge (or_default drv ''bridge'') \<and> otherInterfaces name dev (cfg w) = [] \<and>
            uci_sections Dhcp ''dnsmasq'' (cfg w) \<noteq> []
         then two_commits w w' else one_commit w w'"
proof (cases "remove_sync name dev (or_default drv ''bridge'') (cfg w)")
  case (Inl err)
  with assms show ?thesis by (simp add: removeIntegration_reject split: if_splits)
next
  case (Inr r)
  obtain b st where r: "r = (b, st)" by (cases r)
  note run = removeIntegration_run [OF Inr [unfolded r], of e]
  note rs = remove_sync_run [OF Inr [unfolded r]]
  from assms run have ok: "load_ok e Network \<and> load_ok e Firewall" "commit_ok e"
    by (auto split: if_splits)
  have l: "commits [Load Network, Load Firewall] = []" by (simp add: commits_def)
  from rs have d: "dhcp st = dhcp (cfg w)" by simp
  show ?thesis
  proof (cases "needsBridge (or_default drv ''bridge'') \<and> b")
    case True
    with assms run ok have
      "configureDnsmasq e (Some dev) False
         (step st ([Load Network, Load Firewall] @ [Save st, Apply 90, Flush]) w) = (Inr u, w')"
      by (simp add: commit_events_ok)
    from commit_then_dnsmasq [OF this l d] True rs d show ?thesis by (simp add: uci_defs)
  next
    case False
    with assms run ok have
      "w' = step st ([Load Network, Load Firewall] @ [Save st, Apply 90, Flush]) w"
      by (simp add: commit_events_ok)
    with commit_alone [OF l] False rs show ?thesis by auto
  qed
qed

lemma dhcp_repair_args [simp]: "dhcp (snd (repair_args e name options st)) = dhcp st"
  by (simp add: repair_args_def repair_sync_def repair_device_def repair_interface_def Let_def
      uci_defs split: option.splits)

lemma repair_args_lists:
  assumes "repair_args e name options st = (Inr as, st')"
  shows "''dnsmasq'' \<notin> set (fst as) \<and> snd as \<noteq> [''complete'']"
  using assms
  by (auto simp: repair_args_def repair_sync_def repair_device_def repair_interface_def
      Let_def split: if_splits option.splits)

lemma repair_commits:
  assumes "repairIntegration e name options w = (Inr r, w')"
  shows "if skipped r = [''complete'']
         then added r = [] \<and> new_events w w' = [Load Network, Load Dhcp] \<and> cfg w' = cfg w
         else (''dnsmasq'' \<in> set (added r) \<longleftrightarrow>
                 needsBridge (or_default (driver options) ''bridge'') \<and>
                 \<not> hasDnsmasqExclusion (rdetails r)) \<and>
              (if ''dnsmasq'' \<in> set (added r) \<and> uci_sections Dhcp ''dnsmasq'' (cfg w) \<noteq> []
               then two_commits w w' else one_commit w w')"
proof (cases "complete (repair_status e name options (cfg w))")
  case True
  with assms show ?thesis by (auto simp: repairIntegration_complete)
next
  case nc: False
  from assms have lo: "load_ok e Network" "load_ok e Dhcp"
    using repairIntegration_unknown [of e name options w] by auto
  obtain x st where rs: "repair_args e name options (cfg w) = (x, st)"
    by (cases "repair_args e name options (cfg w)")
  then have d: "dhcp st = dhcp (cfg w)"
    using dhcp_repair_args [of e name options "cfg w"] by simp
  from assms nc lo rs obtain as where x: "x = Inr as"
    by (cases x) (auto simp: repairIntegration_reject)
  note run = repairIntegration_run [OF nc lo rs [unfolded x]]
  note ls = repair_args_lists [OF rs [unfolded x]]
  from assms run have ok: "commit_ok e" by (auto split: if_splits)
  have l: "commits [Load Network, Load Dhcp, Load Network, Load Dhcp] = []"
    by (simp add: commits_def)
  show ?thesis
  proof (cases "\<not> hasDnsmasqExclusion (details (repair_status e name options (cfg w))) \<and>
                needsBridge (or_default (driver options) ''bridge'')")
    case True
    with assms run ok obtain u where
      c: "configureDnsmasq e (bridgeName options) True
         (step st ([Load Network, Load Dhcp, Load Network, Load Dhcp] @
                   [Save st, Apply 90, Flush]) w) = (Inr u, w')"
      and r: "r = \<lparr>added = fst as @ [''dnsmasq''], skipped = snd as,
                   rdetails = details (repair_status e name options (cfg w))\<rparr>"
      by (auto simp: commit_events_ok split: prod.splits sum.splits)
    from commit_then_dnsmasq [OF c l d] True r d ls show ?thesis by (simp add: uci_defs)
  next
    case False
    with assms run ok have
      w': "w' = step st ([Load Network, Load Dhcp, Load Network, Load Dhcp] @
                         [Save st, Apply 90, Flush]) w"
      and r: "r = \<lparr>added = fst as, skipped = snd as @ [''dnsmasq''],
                   rdetails = details (repair_status e name options (cfg w))\<rparr>"
      by (auto simp: commit_events_ok)
    have "snd as @ [''dnsmasq''] \<noteq> [''complete'']" by simp
    with commit_alone [OF l] w' r False ls show ?thesis by auto
  qed
qed

text \<open>
  C4, as the code has it. When \<open>createIntegration\<close>, \<open>removeIntegration\<close> or
  \<open>repairIntegration\<close> resolves, its first commit call is one save, issued when every
  edit of the network and firewall domains has been made, followed by \<open>apply(90)\<close>.
  These two are all its commit calls, except where the operation goes on to the dnsmasq
  exclusion of a bridge driver (for a removal, with no other interface on the device; for
  a repair, with \<open>dnsmasq\<close> among the added pieces, which is when the status had no
  exclusion) and the dhcp domain has a dnsmasq section: there, and only there, one more
  \<open>apply(90)\<close> and one more save, of the final store, follow. A repair that finds the
  integration complete issues no save and no apply and leaves the store as it is.
\<close>

theorem operations_commit_shape:
  "(createIntegration e name options w = (Inr u, w1) \<longrightarrow>
      (if needsBridge (or_default (driver options) ''bridge'') \<and>
          uci_sections Dhcp ''dnsmasq'' (cfg w) \<noteq> []
       then two_commits w w1 else one_commit w w1)) \<and>
   (removeIntegration e name dev drv w = (Inr u, w2) \<longrightarrow>
      (if needsBridge (or_default drv ''bridge'') \<and> otherInterfaces name dev (cfg w) = [] \<and>
          uci_sections Dhcp ''dnsmasq'' (cfg w) \<noteq> []
       then two_commits w w2 else one_commit w w2)) \<and>
   (repairIntegration e name options w = (Inr r, w3) \<longrightarrow>
      (if skipped r = [''complete'']
       then added r = [] \<and> new_events w w3 = [Load Network, Load Dhcp] \<and> cfg w3 = cfg w
       else (''dnsmasq'' \<in> set (added r) \<longleftrightarrow>
               needsBridge (or_default (driver options) ''bridge'') \<and>
               \<not> hasDnsmasqExclusion (rdetails r)) \<and>
            (if ''dnsmasq'' \<in> set (added r) \<and> uci_sections Dhcp ''dnsmasq'' (cfg w) \<noteq> []
             then two_commits w w3 else one_commit w w3)))"
  using create_commits [of e name options w u w1] remove_commits [of e name dev drv w u w2]
    repair_commits [of e name options w r w3]
  by blast

text \<open>
  C4 as stated fails: \<open>createIntegration\<close> for a bridge network, on a store with a dnsmasq
  section, issues save, apply, apply, save: two saves and two applies, the second apply
  before the second save.
\<close>

theorem createIntegration_commits_counterexample:
  "fst (createIntegration env_ok ''net1'' opts_net1 w_orphan) = Inr () \<and>
   map is_save (commits (new_events w_orphan
     (snd (createIntegration env_ok ''net1'' opts_net1 w_orphan)))) = [True, False, False, True] \<and>
   map is_apply (commits (new_events w_orphan
     (snd (createIntegration env_ok ''net1'' opts_net1 w_orphan)))) = [False, True, True, False]"
  by code_simp

theorem operations_commit_shape_witness:
  "createIntegration env_ok ''net1'' opts_net1 w_orphan
     = (Inr (), snd (createIntegration env_ok ''net1'' opts_net1 w_orphan)) \<and>
   two_commits w_orphan (snd (createIntegration env_ok ''net1'' opts_net1 w_orphan)) \<and>
   removeIntegration env_ok ''net1'' ''br0'' (Some ''bridge'') w_two
     = (Inr (), snd (removeIntegration env_ok ''net1'' ''br0'' (Some ''bridge'') w_two)) \<and>
   one_commit w_two (snd (removeIntegration env_ok ''net1'' ''br0'' (Some ''bridge'') w_two)) \<and>
   fst (repairIntegration env_ok ''net1'' opts_net1 w_orphan) =
     Inr \<lparr>added = [''device'', ''dnsmasq''], skipped = [''interface''],
          rdetails = \<lparr>hasInterface = True, hasDevice = False, hasDnsmasqExclusion = False,
                      ddriver = ''bridge''\<rparr>\<rparr> \<and>
   two_commits w_orphan (snd (repairIntegration env_ok ''net1'' opts_net1 w_orphan))"
proof -
  have c: "fst (createIntegration env_ok ''net1'' opts_net1 w_orphan) = Inr ()" by code_simp
  then have c': "createIntegration env_ok ''net1'' opts_net1 w_orphan
     = (Inr (), snd (createIntegration env_ok ''net1'' opts_net1 w_orphan))"
    by (simp add: prod_eq_iff)
  have r: "fst (removeIntegration env_ok ''net1'' ''br0'' (Some ''bridge'') w_two) = Inr ()"
    by code_simp
  then have r': "removeIntegration env_ok ''net1'' ''br0'' (Some ''bridge'') w_two
     = (Inr (), snd (removeIntegration env_ok ''net1'' ''br0'' (Some ''bridge'') w_two))"
    by (simp add: prod_eq_iff)
  have p: "fst (repairIntegration env_ok ''net1'' opts_net1 w_orphan) =
     Inr \<lparr>added = [''device'', ''dnsmasq''], skipped = [''interface''],
          rdetails = \<lparr>hasInterface = True, hasDevice = False, hasDnsmasqExclusion = False,
                      ddriver = ''bridge''\<rparr>\<rparr>"
    by code_simp
  then have p': "repairIntegration env_ok ''net1'' opts_net1 w_orphan =
     (Inr \<lparr>added = [''device'', ''dnsmasq''], skipped = [''interface''],
           rdetails = \<lparr>hasInterface = True, hasDevice = False, hasDnsmasqExclusion = False,
                       ddriver = ''bridge''\<rparr>\<rparr>,
      snd (repairIntegration env_ok ''net1'' opts_net1 w_orphan))"
    by (simp add: prod_eq_iff)
  have b: "needsBridge (or_default (driver opts_net1) ''bridge'') \<and>
           uci_sections Dhcp ''dnsmasq'' (cfg w_orphan) \<noteq> []"
    by code_simp
  have o: "otherInterfaces ''net1'' ''br0'' (cfg w_two) \<noteq> []" by code_simp
  from operations_commit_shape [THEN conjunct1, rule_format, OF c'] b
  have t1: "two_commits w_orphan (snd (createIntegration env_ok ''net1'' opts_net1 w_orphan))"
    by simp
  from operations_commit_shape [THEN conjunct2, THEN conjunct1, rule_format, OF r'] o
  have t2: "one_commit w_two
              (snd (removeIntegration env_ok ''net1'' ''br0'' (Some ''bridge'') w_two))"
    by simp
  from operations_commit_shape [THEN conjunct2, THEN conjunct2, rule_format, OF p'] b
  have t3: "two_commits w_orphan (snd (repairIntegration env_ok ''net1'' opts_net1 w_orphan))"
    by simp
  show ?thesis by (intro conjI c' t1 r' t2 p t3)
qed

lemma find_map:
  "(\<And>s. P' (f s) = P s) \<Longrightarrow> find P' (map f xs) = map_option f (find P xs)"
  by (induction xs) auto

lemma c_set_new:
  assumes "c_get (Some n) c = None" and "sname x = n"
  shows "c_set (Some n) opt val (c @ [x]) = c @ [set_opt opt val x]"
  using assms by (simp add: c_set_append c_set_absent) (simp add: c_set_def)

lemma c_get_opt_append_old:
  "c_get sid c \<noteq> None \<Longrightarrow> c_get_opt sid opt (c @ [x]) = c_get_opt sid opt c"
  by (auto simp: c_get_opt_def c_get_append)

lemma c_get_opt_append_new:
  "sname x = n \<Longrightarrow> c_get (Some n) c = None \<Longrightarrow>
   c_get_opt (Some n) opt (c @ [x]) = map_of (sopts x) opt"
  by (simp add: c_get_opt_def c_get_append)

lemma find_named_c: "find_named d typ nm st = c_find_named typ nm (conf_of d st)"
  by (simp add: find_named_def c_find_named_def uci_defs)

lemma c_find_named_append_other:
  assumes "stype x \<noteq> typ"
  shows "c_find_named typ nm (c @ [x]) = c_find_named typ nm c"
proof -
  have "find (\<lambda>s. c_get_opt (Some (sname s)) ''name'' (c @ [x]) = Some (Str nm))
          (filter (\<lambda>s. stype s = typ) c)
      = find (\<lambda>s. c_get_opt (Some (sname s)) ''name'' c = Some (Str nm))
          (filter (\<lambda>s. stype s = typ) c)"
    by (rule find_cong) (auto simp: c_get_opt_append_old c_get_in)
  with assms show ?thesis by (simp add: c_find_named_def)
qed

lemma c_find_named_append_new:
  assumes "c_find_named typ nm c = None" and "stype x = typ"
    and "c_get (Some (sname x)) c = None" and "map_of (sopts x) ''name'' = Some (Str nm)"
  shows "c_find_named typ nm (c @ [x]) = Some x"
proof -
  have "find (\<lambda>s. c_get_opt (Some (sname s)) ''name'' (c @ [x]) = Some (Str nm))
          (filter (\<lambda>s. stype s = typ) c)
      = find (\<lambda>s. c_get_opt (Some (sname s)) ''name'' c = Some (Str nm))
          (filter (\<lambda>s. stype s = typ) c)"
    by (rule find_cong) (auto simp: c_get_opt_append_old c_get_in)
  with assms show ?thesis
    by (simp add: c_find_named_def find_app c_get_opt_append_new)
qed

lemma c_find_named_c_set:
  assumes "opt \<noteq> ''name''"
  shows "c_find_named typ nm (c_set sid opt val c) =
         map_option (\<lambda>s. if Some (sname s) = sid then set_opt opt val s else s)
           (c_find_named typ nm c)"
proof (cases sid)
  case None
  then show ?thesis by (simp add: c_set_def option.map_ident)
next
  case (Some n)
  have "find (\<lambda>s. c_get_opt (Some (sname s)) ''name'' (c_set sid opt val c) = Some (Str nm))
          (map (\<lambda>s. if sname s = n then set_opt opt val s else s) (filter (\<lambda>s. stype s = typ) c))
      = map_option (\<lambda>s. if sname s = n then set_opt opt val s else s)
          (find (\<lambda>s. c_get_opt (Some (sname s)) ''name'' c = Some (Str nm))
             (filter (\<lambda>s. stype s = typ) c))"
    using assms by (intro find_map) (simp add: c_get_opt_c_set)
  then show ?thesis
    using Some by (simp add: c_find_named_def filter_c_set) (simp add: c_set_def)
qed

lemma c_find_named_SomeD:
  "c_find_named typ nm c = Some z \<Longrightarrow> z \<in> set c \<and> stype z = typ"
  by (auto simp: c_find_named_def dest!: find_SomeD)

lemma zone_joined_ensure_zone:
  assumes "zone \<noteq> []"
  shows "zone_joined zone name (firewall (ensure_zone zone name st))"
proof (cases "c_find_named ''zone'' zone (firewall st)")
  case None
  let ?c = "firewall st"
  let ?x = "set_opt ''network'' (Some (Lst [Some name]))
             (set_opt ''forward'' (Some (Str ''REJECT''))
               (set_opt ''output'' (Some (Str ''ACCEPT''))
                 (set_opt ''input'' (Some (Str ''DROP''))
                   (set_opt ''name'' (Some (Str zone))
                     \<lparr>sname = gen_sid ?c, stype = ''zone'', sopts = []\<rparr>))))"
  have f: "firewall (ensure_zone zone name st) = ?c @ [?x]"
    using None
    by (simp add: ensure_zone_def find_named_c Let_def uci_defs c_add_def new_sid_def c_set_new)
  have "c_find_named ''zone'' zone (?c @ [?x]) = Some ?x"
    using None assms
    by (intro c_find_named_append_new) (simp_all add: map_of_set_opt settable_def)
  then show ?thesis
    by (simp add: f zone_joined_def c_get_opt_append_new map_of_set_opt)
next
  case (Some z)
  then have z: "c_get (Some (sname z)) (firewall st) \<noteq> None"
    using c_find_named_SomeD c_get_in by blast
  show ?thesis
    using Some z
    by (simp add: ensure_zone_def find_named_c Let_def uci_defs zone_joined_def
        c_find_named_c_set c_get_opt_c_set)
qed

lemma zone_joined_ensure_dns_rule:
  "zone_joined zone name (firewall st) \<Longrightarrow>
   zone_joined zone name (firewall (ensure_dns_rule zone' st))"
proof (cases "c_find_named ''rule'' (''Allow-'' @ zone' @ ''-DNS'') (firewall st)")
  case (Some r)
  assume "zone_joined zone name (firewall st)"
  with Some show ?thesis by (simp add: ensure_dns_rule_def find_named_c Let_def)
next
  case None
  assume a: "zone_joined zone name (firewall st)"
  let ?c = "firewall st"
  let ?x = "set_opt ''target'' (Some (Str ''ACCEPT''))
             (set_opt ''dest_port'' (Some (Str ''53''))
               (set_opt ''src'' (Some (Str zone'))
                 (set_opt ''name'' (Some (Str (''Allow-'' @ zone' @ ''-DNS'')))
                   \<lparr>sname = gen_sid ?c, stype = ''rule'', sopts = []\<rparr>)))"
  have f: "firewall (ensure_dns_rule zone' st) = ?c @ [?x]"
    using None
    by (simp add: ensure_dns_rule_def find_named_c Let_def uci_defs c_add_def new_sid_def c_set_new)
  from a obtain z where z: "c_find_named ''zone'' zone ?c = Some z"
    and n: "Some name \<in> set (normalize (c_get_opt (Some (sname z)) ''network'' ?c))"
    by (auto simp: zone_joined_def split: option.splits)
  from z have "c_get (Some (sname z)) ?c \<noteq> None"
    using c_find_named_SomeD c_get_in by blast
  with z n show ?thesis
    by (simp add: f zone_joined_def c_find_named_append_other c_get_opt_append_old)
qed

lemma rule_there_ensure_dns_rule:
  "c_find_named ''rule'' (''Allow-'' @ zone @ ''-DNS'') (firewall (ensure_dns_rule zone st)) \<noteq> None"
proof (cases "c_find_named ''rule'' (''Allow-'' @ zone @ ''-DNS'') (firewall st)")
  case (Some r)
  then show ?thesis by (simp add: ensure_dns_rule_def find_named_c Let_def)
next
  case None
  let ?c = "firewall st"
  let ?x = "set_opt ''target'' (Some (Str ''ACCEPT''))
             (set_opt ''dest_port'' (Some (Str ''53''))
               (set_opt ''src'' (Some (Str zone))
                 (set_opt ''name'' (Some (Str (''Allow-'' @ zone @ ''-DNS'')))
                   \<lparr>sname = gen_sid ?c, stype = ''rule'', sopts = []\<rparr>)))"
  have f: "firewall (ensure_dns_rule zone st) = ?c @ [?x]"
    using None
    by (simp add: ensure_dns_rule_def find_named_c Let_def uci_defs c_add_def new_sid_def c_set_new)
  have "c_find_named ''rule'' (''Allow-'' @ zone @ ''-DNS'') (?c @ [?x]) = Some ?x"
    using None
    by (intro c_find_named_append_new) (simp_all add: map_of_set_opt settable_def)
  then show ?thesis by (simp add: f)
qed

lemma new_sid_named: "truthy_str dev \<Longrightarrow> Some (new_sid dev c) = dev"
  by (cases dev) (auto simp: new_sid_def)

lemma device_there:
  "truthy_str dev \<Longrightarrow> c_get dev (network (create_device dev options st)) \<noteq> None"
  by (simp add: create_device_def Let_def uci_defs c_get_c_add_None new_sid_named
      del: not_None_eq)

lemma interface_there:
  "name \<noteq> [] \<Longrightarrow> c_get (Some name) (network (create_interface name dev nm options st)) \<noteq> None"
  by (simp add: create_interface_def Let_def uci_defs c_get_c_add_None new_sid_def
      del: not_None_eq)

lemma interface_keeps:
  "c_get sid (network st) \<noteq> None \<Longrightarrow>
   c_get sid (network (create_interface name dev nm options st)) \<noteq> None"
  by (simp add: create_interface_def Let_def uci_defs c_get_c_add_None del: not_None_eq)

lemma network_ensure_zone [simp]: "network (ensure_zone zone name st) = network st"
  by (simp add: ensure_zone_def Let_def uci_defs split: option.splits)

lemma network_ensure_dns_rule [simp]: "network (ensure_dns_rule zone st) = network st"
  by (simp add: ensure_dns_rule_def Let_def uci_defs split: option.splits)

lemma rule_there:
  "c_find_named ''rule'' (dns_rule_name zone) (firewall (ensure_dns_rule zone st)) \<noteq> None"
  unfolding dns_rule_name_def by (rule rule_there_ensure_dns_rule)

lemma created_create_sync:
  assumes "name \<noteq> []" and "zone \<noteq> []" and "needsBridge drv \<longrightarrow> truthy_str dev"
  shows "created name drv dev zone (create_sync name drv dev nm zone options st)"
  using assms
  by (simp add: created_def create_sync_def Let_def device_there interface_there interface_keeps
      zone_joined_ensure_zone zone_joined_ensure_dns_rule rule_there
      del: not_None_eq)

lemma create_sync_fix:
  assumes "created name drv dev zone st"
  shows "create_sync name drv dev nm zone options st = st"
proof -
  from assms have d: "needsBridge drv \<longrightarrow> create_device dev options st = st"
    by (simp add: created_def create_device_def uci_defs del: not_None_eq)
  from assms have i: "create_interface name dev nm options st = st"
    by (simp add: created_def create_interface_def uci_defs del: not_None_eq)
  from assms have z: "ensure_zone zone name st = st"
    by (auto simp: created_def zone_joined_def ensure_zone_def find_named_c uci_defs Let_def
        split: option.splits)
  from assms have r: "ensure_dns_rule zone st = st"
    by (auto simp: created_def ensure_dns_rule_def find_named_c Let_def dns_rule_name_def)
  from d i z r show ?thesis by (simp add: create_sync_def Let_def)
qed

lemma created_cong:
  "network st' = network st \<Longrightarrow> firewall st' = firewall st \<Longrightarrow>
   created name drv dev zone st' = created name drv dev zone st"
  by (simp add: created_def)

lemma dnsmasq_edit_idem:
  "snd (dnsmasq_edit b True (snd (dnsmasq_edit b True st))) = snd (dnsmasq_edit b True st)"
proof (cases "uci_sections Dhcp ''dnsmasq'' st")
  case Nil
  then show ?thesis by (simp add: dnsmasq_edit_def)
next
  case (Cons m ms)
  then have ex: "c_get (Some (sname m)) (dhcp st) \<noteq> None"
    using first_section_in by (simp add: uci_defs)
  show ?thesis
  proof (cases "b \<in> set (normalize (uci_get_opt Dhcp (Some (sname m)) ''notinterface'' st))")
    case True
    with Cons show ?thesis by (simp add: dnsmasq_edit_def Let_def)
  next
    case False
    let ?st = "uci_set Dhcp (Some (sname m)) ''notinterface''
                 (Some (Lst (normalize (uci_get_opt Dhcp (Some (sname m)) ''notinterface'' st) @ [b]))) st"
    have s1: "snd (dnsmasq_edit b True st) = ?st"
      using Cons False by (simp add: dnsmasq_edit_def Let_def)
    have "uci_sections Dhcp ''dnsmasq'' ?st = set_opt ''notinterface''
            (Some (Lst (normalize (uci_get_opt Dhcp (Some (sname m)) ''notinterface'' st) @ [b]))) m
            # c_set (Some (sname m)) ''notinterface''
                (Some (Lst (normalize (uci_get_opt Dhcp (Some (sname m)) ''notinterface'' st) @ [b]))) ms"
      using Cons by (simp add: uci_defs filter_c_set c_set_Cons)
    moreover have "b \<in> set (normalize (uci_get_opt Dhcp (Some (sname m)) ''notinterface'' ?st))"
      using ex by (simp add: uci_defs c_get_opt_c_set)
    ultimately have "snd (dnsmasq_edit b True ?st) = ?st"
      by (simp add: dnsmasq_edit_def Let_def)
    with s1 show ?thesis by simp
  qed
qed

lemma zone_name_nonempty:
  "(if or_default zn ''_create_new_'' = ''_create_new_'' then ''podman_'' @ name
    else or_default zn ''_create_new_'') \<noteq> []"
  by (simp add: or_default_def split: option.splits)

lemma cfg_createIntegration:
  assumes "subnet options = Some sn"
  shows "cfg (snd (createIntegration e name options w)) = create_result e name options sn (cfg w)"
  by (simp add: createIntegration_run [OF assms] create_result_def configureDnsmasq_run)

lemma create_result_idem:
  assumes "name \<noteq> []"
    and "needsBridge (or_default (driver options) ''bridge'') \<longrightarrow> truthy_str (bridgeName options)"
  shows "create_result e name options sn (create_result e name options sn st)
         = create_result e name options sn st"
proof -
  let ?drv = "or_default (driver options) ''bridge''"
  let ?dev = "if needsBridge ?drv then bridgeName options else parent options"
  let ?zone = "if or_default (zoneName options) ''_create_new_'' = ''_create_new_''
               then ''podman_'' @ name else or_default (zoneName options) ''_create_new_''"
  let ?C = "create_args e name options sn"
  let ?D = "\<lambda>s. snd (dnsmasq_edit (bridgeName options) True s)"
  have cr: "created name ?drv ?dev ?zone (?C st)"
    unfolding create_args_def
    using assms by (intro created_create_sync zone_name_nonempty) auto
  have fx: "?C s = s" if "created name ?drv ?dev ?zone s" for s
    unfolding create_args_def using that by (rule create_sync_fix)
  have c1: "?C (?C st) = ?C st" using cr by (rule fx)
  have "created name ?drv ?dev ?zone (?D (?C st))"
    using cr created_cong [of "?D (?C st)" "?C st"] by simp
  then have c2: "?C (?D (?C st)) = ?D (?C st)" by (rule fx)
  show ?thesis
    by (simp add: create_result_def c1 c2 dnsmasq_edit_idem)
qed

text \<open>
  C1, as the code has it: for a network name that is not empty and, for a bridge driver,
  a bridge name that is given and not empty, a second \<open>createIntegration\<close> with the same
  arguments, in the same environment, leaves the store that the first one left (whichever
  of the calls of the first the environment let succeed).
\<close>

theorem createIntegration_idempotent:
  assumes "name \<noteq> []"
    and "needsBridge (or_default (driver options) ''bridge'') \<longrightarrow> truthy_str (bridgeName options)"
  shows "cfg (snd (createIntegration e name options (snd (createIntegration e name options w))))
         = cfg (snd (createIntegration e name options w))"
proof (cases "subnet options")
  case None
  then show ?thesis by (simp add: createIntegration_def reject_def)
next
  case (Some sn)
  show ?thesis
    by (simp add: cfg_createIntegration [OF Some] create_result_idem [OF assms])
qed

text \<open>
  C1 as stated fails for an options object without a bridge name: every call adds one
  more device section under a generated identifier, so the network domain has two sections
  after one call and three after two.
\<close>

theorem createIntegration_idempotent_counterexample:
  "createIntegration env_ok ''net1'' opts_nobridge w_empty = (Inr (), w_first) \<and>
   createIntegration env_ok ''net1'' opts_nobridge w_first = (Inr (), w_second) \<and>
   map stype (network (cfg w_first)) = [''device'', ''interface''] \<and>
   map stype (network (cfg w_second)) = [''device'', ''interface'', ''device''] \<and>
   cfg w_second \<noteq> cfg w_first"
  by code_simp

theorem createIntegration_idempotent_witness:
  "''net1'' \<noteq> [] \<and>
   needsBridge (or_default (driver opts_net1) ''bridge'') \<and> truthy_str (bridgeName opts_net1) \<and>
   cfg (snd (createIntegration env_ok ''net1'' opts_net1
        (snd (createIntegration env_ok ''net1'' opts_net1 w_orphan))))
     = cfg (snd (createIntegration env_ok ''net1'' opts_net1 w_orphan))"
proof -
  have n: "''net1'' \<noteq> []" by simp
  have d: "needsBridge (or_default (driver opts_net1) ''bridge'')" by code_simp
  have t: "truthy_str (bridgeName opts_net1)" by code_simp
  from t have b: "needsBridge (or_default (driver opts_net1) ''bridge'') \<longrightarrow>
           truthy_str (bridgeName opts_net1)"
    by (rule impI)
  from createIntegration_idempotent [OF n b] n d t show ?thesis by (intro conjI)
qed





declare dec.simps [simp del] hex.simps [simp del] pad_hextets.simps [simp del]

lemma is_digit_digit [simp]: "is_digit (digit n)"
  by (simp add: is_digit_def digit_def)

lemma digit_val [simp]: "(of_char (digit n) :: nat) - 48 = n mod 10"
  by (simp add: digit_def)

lemma dec_digits: "\<forall>c \<in> set (dec n). is_digit c"
  by (induction n rule: dec.induct) (subst dec.simps, auto)

lemma foldl_dec:
  "foldl (\<lambda>n c. 10 * n + (of_char c - 48)) 0 (dec n) = n"
proof (induction n rule: dec.induct)
  case (1 n)
  show ?case
  proof (cases "n < 10")
    case True
    then show ?thesis by (subst dec.simps) simp
  next
    case False
    with 1 show ?thesis by (subst dec.simps) simp
  qed
qed

lemma js_Number_dec [simp]: "n < 2 ^ 53 \<Longrightarrow> js_Number (dec n) = Some n"
  by (simp add: js_Number_def decimal_def dec_digits foldl_dec)

subsection \<open>Splitting at a separator of one character\<close>

lemma js_split_char:
  "ch \<notin> set s \<Longrightarrow> js_split [ch] (s @ ch # rest) = s # js_split [ch] rest"
  by (induction s) auto

lemma js_split_none: "ch \<notin> set s \<Longrightarrow> js_split [ch] s = [s]"
  by (induction s) auto

lemma digit_not_sep: "is_digit c \<Longrightarrow> c \<noteq> CHR ''.'' \<and> c \<noteq> CHR ''/'' \<and> c \<noteq> CHR '':''"
  by (auto simp: is_digit_def)

lemma dec_no_sep [simp]:
  "CHR ''.'' \<notin> set (dec n)" "CHR ''/'' \<notin> set (dec n)" "CHR '':'' \<notin> set (dec n)"
  using dec_digits [of n] digit_not_sep by blast+

lemma split_cidr:
  "js_split ''/'' (ipv4_cidr a b c d n)
     = [dec a @ ''.'' @ dec b @ ''.'' @ dec c @ ''.'' @ dec d, dec n]"
proof -
  have "CHR ''/'' \<notin> set (dec a @ ''.'' @ dec b @ ''.'' @ dec c @ ''.'' @ dec d)" by simp
  from js_split_char [OF this, of "dec n"] show ?thesis
    by (simp add: ipv4_cidr_def js_split_none)
qed

lemma split_octets:
  "js_split ''.'' (dec a @ ''.'' @ dec b @ ''.'' @ dec c @ ''.'' @ dec d)
     = [dec a, dec b, dec c, dec d]"
  using js_split_char [of "CHR ''.''" "dec a" "dec b @ ''.'' @ dec c @ ''.'' @ dec d"]
    js_split_char [of "CHR ''.''" "dec b" "dec c @ ''.'' @ dec d"]
    js_split_char [of "CHR ''.''" "dec c" "dec d"]
  by (simp add: js_split_none)

subsection \<open>Packing two octets\<close>

lemma pack_nat:
  assumes "d < 256"
  shows "push_bit 8 (c::nat) OR d = c * 256 + d"
proof -
  have "take_bit 8 d = d" using assms by (simp add: take_bit_nat_eq_self)
  then have b: "bit d n \<Longrightarrow> n < 8" for n
    by (metis bit_take_bit_iff)
  have "push_bit 8 c + d = push_bit 8 c OR d"
    by (rule disjunctive_add) (auto simp: bit_push_bit_iff dest: b)
  then show ?thesis by (simp add: push_bit_eq_mult)
qed

lemma pack_word:
  assumes "c < 256" and "d < 256"
  shows "sint (push_bit 8 (toInt32 c) OR toInt32 d) = int (c * 256 + d)"
proof -
  have "push_bit 8 (word_of_nat c) OR word_of_nat d = (word_of_nat (c * 256 + d) :: 32 word)"
    using pack_nat [OF assms(2), of c] by (simp add: push_bit_of_nat flip: of_nat_or_eq)
  moreover have "sint (word_of_nat (c * 256 + d) :: 32 word) = int (c * 256 + d)"
  proof -
    have "int (c * 256 + d) < 2 ^ 31" using assms by simp
    then have "signed_take_bit 31 (int (c * 256 + d)) = int (c * 256 + d)"
      by (intro signed_take_bit_int_eq_self) simp_all
    then show ?thesis
      using sint_sbintrunc' [where 'a = 32, of "int (c * 256 + d)"] by simp
  qed
  ultimately show ?thesis by (simp add: toInt32_def)
qed

lemma toString16_int: "toString16 (int m) = hex m"
  by (simp add: toString16_def)

lemma subnetIdHex_cidr:
  assumes "c < 256" and "d < 256"
  shows "subnetIdHex (ipv4_cidr a b c d n) = Some (padStart 4 CHR ''0'' (hex (c * 256 + d)))"
proof -
  have f: "first (js_split ''/'' (ipv4_cidr a b c d n))
             = dec a @ ''.'' @ dec b @ ''.'' @ dec c @ ''.'' @ dec d"
    unfolding split_cidr by (simp add: first_def)
  have n: "c < 2 ^ 53" "d < 2 ^ 53" using assms by simp_all
  have o: "operand (map js_Number [dec a, dec b, dec c, dec d]) 2 = Some (toInt32 c)"
    "operand (map js_Number [dec a, dec b, dec c, dec d]) 3 = Some (toInt32 d)"
    using n by (simp_all add: operand_def)
  have p: "toString16 (sint (push_bit 8 (toInt32 c) OR toInt32 d)) = hex (c * 256 + d)"
    unfolding pack_word [OF assms] by (rule toString16_int)
  show ?thesis
    unfolding subnetIdHex_def Let_def f split_octets o by (simp add: p)
qed

subsection \<open>Four hexadecimal digits\<close>

lemma hexval_hexdigit: "hexval (hexdigit k) = k mod 16"
proof -
  define j where "j = k mod 16"
  then have "j < 16" by simp
  then have "j = 0 \<or> j = 1 \<or> j = 2 \<or> j = 3 \<or> j = 4 \<or> j = 5 \<or> j = 6 \<or> j = 7 \<or>
             j = 8 \<or> j = 9 \<or> j = 10 \<or> j = 11 \<or> j = 12 \<or> j = 13 \<or> j = 14 \<or> j = 15"
    by arith
  then have "hexval (''0123456789abcdef'' ! j) = j"
    by (elim disjE) (simp_all add: hexval_def is_digit_def)
  then show ?thesis by (simp add: hexdigit_def j_def)
qed

lemma unhex_snoc: "unhex (s @ [c]) = 16 * unhex s + hexval c"
  by (simp add: unhex_def)

lemma unhex_hex: "unhex (hex n) = n"
proof (induction n rule: hex.induct)
  case (1 n)
  show ?case
  proof (cases "n < 16")
    case True
    then show ?thesis by (subst hex.simps) (simp add: unhex_def hexval_hexdigit)
  next
    case False
    with 1 show ?thesis by (subst hex.simps) (simp add: unhex_snoc hexval_hexdigit)
  qed
qed

lemma unhex_zeros: "unhex (replicate k CHR ''0'' @ s) = unhex s"
proof -
  have "foldl (\<lambda>n c. 16 * n + hexval c) 0 (replicate k CHR ''0'') = 0"
    by (induction k) (simp_all add: hexval_def is_digit_def)
  then show ?thesis by (simp add: unhex_def)
qed

lemma unhex_padStart: "unhex (padStart 4 CHR ''0'' (hex n)) = n"
  by (simp add: padStart_def unhex_zeros unhex_hex)

lemma length_hex: "n < 16 ^ k \<Longrightarrow> 0 < k \<Longrightarrow> length (hex n) \<le> k"
proof (induction n arbitrary: k rule: hex.induct)
  case (1 n)
  show ?case
  proof (cases "n < 16")
    case True
    with 1 show ?thesis by (subst hex.simps) simp
  next
    case False
    with 1(2,3) obtain j where k: "k = Suc j" by (cases k) auto
    with False 1(2) have "0 < j" by (cases j) auto
    moreover from k 1(2) have "n div 16 < 16 ^ j"
      by (simp add: less_mult_imp_div_less mult.commute)
    ultimately have "length (hex (n div 16)) \<le> j" using 1(1) [OF False] by simp
    with False k show ?thesis by (subst hex.simps) simp
  qed
qed

lemma length_subnet_id:
  assumes "c < 256" and "d < 256"
  shows "length (padStart 4 CHR ''0'' (hex (c * 256 + d))) = 4"
proof -
  have "c * 256 + d < 16 ^ 4" using assms by simp
  then have "length (hex (c * 256 + d)) \<le> 4" by (rule length_hex) simp
  then show ?thesis by (simp add: padStart_def)
qed

lemma hexdigit_lower: "hexdigit k \<in> set ''0123456789abcdef''"
  unfolding hexdigit_def by (rule nth_mem) simp

lemma hex_lower: "set (hex n) \<subseteq> set ''0123456789abcdef''"
proof (induction n rule: hex.induct)
  case (1 n)
  show ?case
  proof (cases "n < 16")
    case True
    then show ?thesis using hexdigit_lower [of n] by (subst hex.simps) simp
  next
    case False
    with 1 show ?thesis using hexdigit_lower [of "n mod 16"] by (subst hex.simps) simp
  qed
qed

lemma zeros_lower: "set (replicate k CHR ''0'') \<subseteq> set ''0123456789abcdef''"
  by (induction k) simp_all

lemma lower_hex_subnet_id: "lower_hex (padStart 4 CHR ''0'' (hex m))"
  unfolding lower_hex_def padStart_def set_append by (rule Un_least [OF zeros_lower hex_lower])

subsection \<open>The hextets of a prefix\<close>

lemma split2_skip:
  "CHR '':'' \<notin> set h \<Longrightarrow> js_split ''::'' t = p # ps \<Longrightarrow> js_split ''::'' (h @ t) = (h @ p) # ps"
  by (induction h) auto

lemma split2_colon:
  "x \<noteq> CHR '':'' \<Longrightarrow> js_split ''::'' (x # t) = p # ps \<Longrightarrow>
   js_split ''::'' (CHR '':'' # x # t) = (CHR '':'' # p) # ps"
  by simp

lemma join_hextets_head:
  assumes "hextet y"
  shows "\<exists>x t. join '':'' (y # ys) = x # t \<and> x \<noteq> CHR '':''"
proof -
  from assms obtain x t where "y = x # t" "x \<noteq> CHR '':''"
    by (cases y) (auto simp: hextet_def)
  then show ?thesis by (cases ys) auto
qed

lemma split2_join:
  assumes "\<forall>h \<in> set hs. hextet h" and "js_split ''::'' t = p # ps"
  shows "js_split ''::'' (join '':'' hs @ t) = (join '':'' hs @ p) # ps"
  using assms(1)
proof (induction hs rule: induct_list012)
  case 1
  from assms(2) show ?case by simp
next
  case (2 x)
  then show ?case using split2_skip [OF _ assms(2), of x] by (simp add: hextet_def)
next
  case (3 x y ys)
  then have ih: "js_split ''::'' (join '':'' (y # ys) @ t) = (join '':'' (y # ys) @ p) # ps"
    and x: "CHR '':'' \<notin> set x" and y: "hextet y"
    by (simp_all add: hextet_def)
  from join_hextets_head [OF y, of ys] obtain c r where
    j: "join '':'' (y # ys) = c # r" and c: "c \<noteq> CHR '':''"
    by blast
  from ih have "js_split ''::'' (c # r @ t) = (c # r @ p) # ps" by (simp add: j)
  from split2_colon [OF c this]
  have "js_split ''::'' ('':'' @ join '':'' (y # ys) @ t) = ('':'' @ join '':'' (y # ys) @ p) # ps"
    by (simp add: j)
  from split2_skip [OF x this] show ?case by simp
qed

lemma join_no_slash:
  "\<forall>h \<in> set hs. hextet h \<Longrightarrow> CHR ''/'' \<notin> set (join '':'' hs)"
  by (induction hs rule: induct_list012) (simp_all add: hextet_def)

lemma split_join:
  "\<forall>h \<in> set hs. hextet h \<Longrightarrow> hs \<noteq> [] \<Longrightarrow> js_split '':'' (join '':'' hs) = hs"
proof (induction hs rule: induct_list012)
  case 1
  then show ?case by simp
next
  case (2 x)
  then show ?case using js_split_none [of "CHR '':''" x] by (simp add: hextet_def)
next
  case (3 x y ys)
  then show ?case
    using js_split_char [of "CHR '':''" x "join '':'' (y # ys)"] by (simp add: hextet_def)
qed

lemma pad_hextets_eq: "pad_hextets hs = hs @ replicate (3 - length hs) ''0''"
proof (induction hs rule: pad_hextets.induct)
  case (1 hs)
  show ?case
  proof (cases "length hs < 3")
    case True
    then have "replicate (3 - length hs) ''0'' = ''0'' # replicate (3 - length (hs @ [''0''])) ''0''"
      by (cases "3 - length hs") simp_all
    with 1 True show ?thesis by (subst pad_hextets.simps) simp
  next
    case False
    then show ?thesis by (subst pad_hextets.simps) simp
  qed
qed

lemma take_padded: "take 3 (hs @ replicate (3 - length hs) z) = take 3 (hs @ replicate 3 z)"
  by simp

lemma ulaHextets_text:
  assumes "\<forall>h \<in> set hs. hextet h" and "sep = [] \<or> sep = ''::''"
    and "sfx = [] \<or> hd sfx = CHR ''/''"
  shows "ulaHextets (join '':'' hs @ sep @ sfx) = join '':'' (take 3 (hs @ replicate 3 ''0''))"
proof -
  have n: "CHR ''/'' \<notin> set (join '':'' hs @ sep)"
    using join_no_slash [OF assms(1)] assms(2) by auto
  have a: "first (js_split ''/'' (join '':'' hs @ sep @ sfx)) = join '':'' hs @ sep"
  proof (cases sfx)
    case Nil
    with js_split_none [OF n] show ?thesis by (simp add: first_def)
  next
    case (Cons x t)
    with assms(3) have "sfx = CHR ''/'' # t" by simp
    with js_split_char [OF n, of t] show ?thesis by (simp add: first_def)
  qed
  from assms(2) obtain ps where "js_split ''::'' sep = [] # ps" by auto
  from split2_join [OF assms(1) this]
  have b: "first (js_split ''::'' (join '':'' hs @ sep)) = join '':'' hs"
    by (simp add: first_def)
  have c: "(if js_split '':'' (join '':'' hs) = [[]] then [] else js_split '':'' (join '':'' hs)) = hs"
  proof (cases "hs = []")
    case True
    then show ?thesis by simp
  next
    case False
    from assms(1) have "hs \<noteq> [[]]" by (auto simp: hextet_def)
    with split_join [OF assms(1) False] show ?thesis by simp
  qed
  show ?thesis
    unfolding ulaHextets_def Let_def a b c pad_hextets_eq take_padded ..
qed

lemma subnet_id_inj:
  assumes "padStart 4 CHR ''0'' (hex m) = padStart 4 CHR ''0'' (hex m')"
  shows "m = m'"
proof -
  from assms have "unhex (padStart 4 CHR ''0'' (hex m)) = unhex (padStart 4 CHR ''0'' (hex m'))"
    by simp
  then show ?thesis by (simp only: unhex_padStart)
qed

lemma deriveUlaFromIpv4_cidr:
  assumes "c < 256" and "d < 256"
  shows "deriveUlaFromIpv4 (ipv4_cidr a b c d n) prefix =
           Some \<lparr>ula_ipv6subnet = ulaHextets prefix @ '':'' @ padStart 4 CHR ''0'' (hex (c * 256 + d))
                                    @ ''::'' @ ''/64'',
                 ula_ipv6gateway = ulaHextets prefix @ '':'' @ padStart 4 CHR ''0'' (hex (c * 256 + d))
                                    @ ''::'' @ ''1''\<rparr>"
  by (simp add: deriveUlaFromIpv4_def subnetIdHex_cidr [OF assms])

text \<open>
  C7: for every IPv4 subnet \<open>a.b.c.d/n\<close> (octets \<open>c\<close> and \<open>d\<close> below 256) and every ULA
  prefix written as hextets \<open>h1:...:hk\<close>, with or without \<open>::\<close> after them and with or
  without a length \<open>/len\<close> at the end, \<open>deriveUlaFromIpv4\<close> returns the subnet made of
  the first three hextets of the prefix (those written, then zeros where fewer than three
  are written), a colon, the value \<open>c * 256 + d\<close> in four lower-case hexadecimal digits
  and \<open>::/64\<close>, and the gateway made of the same address followed by \<open>1\<close>; and for every
  prefix text, subnets that differ in octet 3 or octet 4 only give different ULA subnets.
  (The deriver is a function of its two arguments, so two calls on the same inputs give
  the same result.)
\<close>

theorem deriveUlaFromIpv4_packs_octets:
  assumes "c < 256" and "d < 256"
    and "\<forall>h \<in> set hs. hextet h" and "sep = [] \<or> sep = ''::''"
    and "sfx = [] \<or> hd sfx = CHR ''/''"
  shows "deriveUlaFromIpv4 (ipv4_cidr a b c d n) (join '':'' hs @ sep @ sfx) =
           Some \<lparr>ula_ipv6subnet = join '':'' (take 3 (hs @ replicate 3 ''0'')) @ '':'' @
                                    padStart 4 CHR ''0'' (hex (c * 256 + d)) @ ''::'' @ ''/64'',
                 ula_ipv6gateway = join '':'' (take 3 (hs @ replicate 3 ''0'')) @ '':'' @
                                    padStart 4 CHR ''0'' (hex (c * 256 + d)) @ ''::'' @ ''1''\<rparr> \<and>
         length (padStart 4 CHR ''0'' (hex (c * 256 + d))) = 4 \<and>
         lower_hex (padStart 4 CHR ''0'' (hex (c * 256 + d))) \<and>
         unhex (padStart 4 CHR ''0'' (hex (c * 256 + d))) = c * 256 + d \<and>
         (\<forall>prefix c' d'. c' < 256 \<and> d' < 256 \<and> (c', d') \<noteq> (c, d) \<longrightarrow>
            (\<exists>u u'. deriveUlaFromIpv4 (ipv4_cidr a b c d n) prefix = Some u \<and>
                     deriveUlaFromIpv4 (ipv4_cidr a b c' d' n) prefix = Some u' \<and>
                     ula_ipv6subnet u' \<noteq> ula_ipv6subnet u))"
proof (intro conjI allI impI)
  show "deriveUlaFromIpv4 (ipv4_cidr a b c d n) (join '':'' hs @ sep @ sfx) =
           Some \<lparr>ula_ipv6subnet = join '':'' (take 3 (hs @ replicate 3 ''0'')) @ '':'' @
                                    padStart 4 CHR ''0'' (hex (c * 256 + d)) @ ''::'' @ ''/64'',
                 ula_ipv6gateway = join '':'' (take 3 (hs @ replicate 3 ''0'')) @ '':'' @
                                    padStart 4 CHR ''0'' (hex (c * 256 + d)) @ ''::'' @ ''1''\<rparr>"
    unfolding deriveUlaFromIpv4_cidr [OF assms(1,2)] ulaHextets_text [OF assms(3,4,5)] ..
  show "length (padStart 4 CHR ''0'' (hex (c * 256 + d))) = 4"
    using assms(1,2) by (rule length_subnet_id)
  show "lower_hex (padStart 4 CHR ''0'' (hex (c * 256 + d)))"
    by (rule lower_hex_subnet_id)
  show "unhex (padStart 4 CHR ''0'' (hex (c * 256 + d))) = c * 256 + d"
    by (rule unhex_padStart)
  show "\<exists>u u'. deriveUlaFromIpv4 (ipv4_cidr a b c d n) prefix = Some u \<and>
               deriveUlaFromIpv4 (ipv4_cidr a b c' d' n) prefix = Some u' \<and>
               ula_ipv6subnet u' \<noteq> ula_ipv6subnet u"
    if h: "c' < 256 \<and> d' < 256 \<and> (c', d') \<noteq> (c, d)" for prefix c' d'
  proof -
    from h have b: "c' < 256" "d' < 256" by simp_all
    have "padStart 4 CHR ''0'' (hex (c' * 256 + d')) \<noteq> padStart 4 CHR ''0'' (hex (c * 256 + d))"
    proof
      assume "padStart 4 CHR ''0'' (hex (c' * 256 + d')) = padStart 4 CHR ''0'' (hex (c * 256 + d))"
      then have e: "c' * 256 + d' = c * 256 + d" by (rule subnet_id_inj)
      from e have "(c' * 256 + d') div 256 = (c * 256 + d) div 256" by simp
      with h assms(1,2) have "c' = c" by simp
      with e have "d' = d" by simp
      with \<open>c' = c\<close> h show False by simp
    qed
    then show ?thesis
      unfolding deriveUlaFromIpv4_cidr [OF assms(1,2)] deriveUlaFromIpv4_cidr [OF b]
      by (simp add: length_subnet_id assms(1,2) b)
  qed
qed

theorem deriveUlaFromIpv4_packs_octets_witness:
  "(3::nat) < 256 \<and> (0::nat) < 256 \<and>
   hextet ''fd00'' \<and> hextet ''abcd'' \<and> hextet ''ef01'' \<and>
   deriveUlaFromIpv4 ''10.20.3.0/24'' ''fd00:abcd:ef01::/48'' =
     Some \<lparr>ula_ipv6subnet = ''fd00:abcd:ef01:0300::/64'',
           ula_ipv6gateway = ''fd00:abcd:ef01:0300::1''\<rparr> \<and>
   deriveUlaFromIpv4 ''10.20.3.0/24'' ''fd00::/8'' =
     Some \<lparr>ula_ipv6subnet = ''fd00:0:0:0300::/64'',
           ula_ipv6gateway = ''fd00:0:0:0300::1''\<rparr> \<and>
   (4::nat) < 256 \<and> ((4::nat), (0::nat)) \<noteq> (3, 0) \<and>
   map_option ula_ipv6subnet (deriveUlaFromIpv4 ''10.20.4.0/24'' ''fd00:abcd:ef01::/48'')
     \<noteq> map_option ula_ipv6subnet (deriveUlaFromIpv4 ''10.20.3.0/24'' ''fd00:abcd:ef01::/48'')"
proof -
  have c: "(3::nat) < 256" and d: "(0::nat) < 256" by simp_all
  have i: "ipv4_cidr 10 20 3 0 24 = ''10.20.3.0/24''" "ipv4_cidr 10 20 4 0 24 = ''10.20.4.0/24''"
    by code_simp+
  have x: "padStart 4 CHR ''0'' (hex (3 * 256 + 0)) = ''0300''" by code_simp
  have h: "hextet ''fd00''" "hextet ''abcd''" "hextet ''ef01''" by code_simp+
  then have hs: "\<forall>h \<in> set [''fd00'', ''abcd'', ''ef01'']. hextet h"
    "\<forall>h \<in> set [''fd00'']. hextet h"
    by simp_all
  have s: "''::'' = [] \<or> ''::'' = ''::''" "''/48'' = [] \<or> hd ''/48'' = CHR ''/''"
    "''/8'' = [] \<or> hd ''/8'' = CHR ''/''"
    by simp_all
  have q: "(4::nat) < 256 \<and> (0::nat) < 256 \<and> ((4::nat), (0::nat)) \<noteq> (3, 0)" by simp
  note t = deriveUlaFromIpv4_packs_octets [OF c d hs(1) s(1) s(2), of 10 20 24]
  note t' = deriveUlaFromIpv4_packs_octets [OF c d hs(2) s(1) s(3), of 10 20 24]
  have r: "deriveUlaFromIpv4 ''10.20.3.0/24'' ''fd00:abcd:ef01::/48'' =
     Some \<lparr>ula_ipv6subnet = ''fd00:abcd:ef01:0300::/64'',
           ula_ipv6gateway = ''fd00:abcd:ef01:0300::1''\<rparr>"
    using t [THEN conjunct1, unfolded i x] by simp
  have j: "join '':'' (take 3 ([''fd00''] @ replicate 3 ''0'')) = ''fd00:0:0''" by code_simp
  have r': "deriveUlaFromIpv4 ''10.20.3.0/24'' ''fd00::/8'' =
     Some \<lparr>ula_ipv6subnet = ''fd00:0:0:0300::/64'',
           ula_ipv6gateway = ''fd00:0:0:0300::1''\<rparr>"
    using t' [THEN conjunct1, unfolded i x j] by simp
  from t [THEN conjunct2, THEN conjunct2, THEN conjunct2, THEN conjunct2, rule_format, OF q,
          of "''fd00:abcd:ef01::/48''", unfolded i]
  have n: "map_option ula_ipv6subnet (deriveUlaFromIpv4 ''10.20.4.0/24'' ''fd00:abcd:ef01::/48'')
     \<noteq> map_option ula_ipv6subnet (deriveUlaFromIpv4 ''10.20.3.0/24'' ''fd00:abcd:ef01::/48'')"
    by auto
  from q have q': "(4::nat) < 256" "((4::nat), (0::nat)) \<noteq> (3, 0)" by blast+
  show ?thesis by (intro conjI c d h r r' q' n)
qed

end
